theory Spec2Isabelle
  imports Main "HOL-Library.AList"
begin

unbundle bit_operations_syntax

section \<open>The runtime the emitter is written against\<close>

text \<open>
  The module \<^verbatim>\<open>multicast-events\<close> is one JavaScript file around the constructor
  \<^verbatim>\<open>EventEmitter\<close>. It leans on Node's \<^verbatim>\<open>crypto\<close>, \<^verbatim>\<open>dgram\<close> and \<^verbatim>\<open>os\<close> modules and on
  the packages \<^verbatim>\<open>amp-message\<close> and \<^verbatim>\<open>buffertools\<close>. What the emitter needs of them is
  modelled here: the MD5 digest in full (RFC 1321), number formatting and parsing, the
  regular expression of \<^verbatim>\<open>isMulticastAddress\<close>; ciphers and the message codec are
  fields of an environment record.

  A \<^verbatim>\<open>Buffer\<close> and a JavaScript string are both a \<^typ>\<open>string\<close>: a list of 8-bit
  characters. Numbers are \<^typ>\<open>int\<close>. An object used as a dictionary is an association
  list of its own properties in enumeration order (insertion order); event names that
  shadow a member of \<^verbatim>\<open>Object.prototype\<close> are outside the model.
\<close>

subsection \<open>MD5\<close>

text \<open>
  \<^verbatim>\<open>crypto.createHash('md5')\<close>. A 32-bit word is an \<^typ>\<open>int\<close> in \<open>[0, 2^32)\<close> with the
  wrap-around written out. Each of the four rounds is a table of sixteen steps
  \<open>(k, s, t)\<close>: message word, left rotation, additive constant.
\<close>

type_synonym u32 = int
type_synonym md5_state = "u32 \<times> u32 \<times> u32 \<times> u32"

definition add32 :: "u32 \<Rightarrow> u32 \<Rightarrow> u32" where
  "add32 x y = (x + y) mod 4294967296"

definition not32 :: "u32 \<Rightarrow> u32" where
  "not32 x = 4294967295 - x"

definition rotl32 :: "nat \<Rightarrow> u32 \<Rightarrow> u32" where
  "rotl32 n x = (x * 2 ^ n) mod 4294967296 + x div 2 ^ (32 - n)"

definition md5_F :: "u32 \<Rightarrow> u32 \<Rightarrow> u32 \<Rightarrow> u32" where
  "md5_F x y z = (x AND y) OR (not32 x AND z)"

definition md5_G :: "u32 \<Rightarrow> u32 \<Rightarrow> u32 \<Rightarrow> u32" where
  "md5_G x y z = (x AND z) OR (y AND not32 z)"

definition md5_H :: "u32 \<Rightarrow> u32 \<Rightarrow> u32 \<Rightarrow> u32" where
  "md5_H x y z = x XOR y XOR z"

definition md5_I :: "u32 \<Rightarrow> u32 \<Rightarrow> u32 \<Rightarrow> u32" where
  "md5_I x y z = y XOR (x OR not32 z)"

definition md5_step ::
  "(u32 \<Rightarrow> u32 \<Rightarrow> u32 \<Rightarrow> u32) \<Rightarrow> u32 list \<Rightarrow> md5_state \<Rightarrow> nat \<times> nat \<times> u32 \<Rightarrow> md5_state" where
  "md5_step f m st e =
     (case st of (a, b, c, d) \<Rightarrow> case e of (k, s, t) \<Rightarrow>
        (d, add32 b (rotl32 s (add32 (add32 (add32 a (f b c d)) (m ! k)) t)), b, c))"

definition md5_round1 :: "(nat \<times> nat \<times> u32) list" where
  "md5_round1 =
    [(0, 7, 0xd76aa478), (1, 12, 0xe8c7b756), (2, 17, 0x242070db), (3, 22, 0xc1bdceee),
     (4, 7, 0xf57c0faf), (5, 12, 0x4787c62a), (6, 17, 0xa8304613), (7, 22, 0xfd469501),
     (8, 7, 0x698098d8), (9, 12, 0x8b44f7af), (10, 17, 0xffff5bb1), (11, 22, 0x895cd7be),
     (12, 7, 0x6b901122), (13, 12, 0xfd987193), (14, 17, 0xa679438e), (15, 22, 0x49b40821)]"

definition md5_round2 :: "(nat \<times> nat \<times> u32) list" where
  "md5_round2 =
    [(1, 5, 0xf61e2562), (6, 9, 0xc040b340), (11, 14, 0x265e5a51), (0, 20, 0xe9b6c7aa),
     (5, 5, 0xd62f105d), (10, 9, 0x02441453), (15, 14, 0xd8a1e681), (4, 20, 0xe7d3fbc8),
     (9, 5, 0x21e1cde6), (14, 9, 0xc33707d6), (3, 14, 0xf4d50d87), (8, 20, 0x455a14ed),
     (13, 5, 0xa9e3e905), (2, 9, 0xfcefa3f8), (7, 14, 0x676f02d9), (12, 20, 0x8d2a4c8a)]"

definition md5_round3 :: "(nat \<times> nat \<times> u32) list" where
  "md5_round3 =
    [(5, 4, 0xfffa3942), (8, 11, 0x8771f681), (11, 16, 0x6d9d6122), (14, 23, 0xfde5380c),
     (1, 4, 0xa4beea44), (4, 11, 0x4bdecfa9), (7, 16, 0xf6bb4b60), (10, 23, 0xbebfbc70),
     (13, 4, 0x289b7ec6), (0, 11, 0xeaa127fa), (3, 16, 0xd4ef3085), (6, 23, 0x04881d05),
     (9, 4, 0xd9d4d039), (12, 11, 0xe6db99e5), (15, 16, 0x1fa27cf8), (2, 23, 0xc4ac5665)]"

definition md5_round4 :: "(nat \<times> nat \<times> u32) list" where
  "md5_round4 =
    [(0, 6, 0xf4292244), (7, 10, 0x432aff97), (14, 15, 0xab9423a7), (5, 21, 0xfc93a039),
     (12, 6, 0x655b59c3), (3, 10, 0x8f0ccc92), (10, 15, 0xffeff47d), (1, 21, 0x85845dd1),
     (8, 6, 0x6fa87e4f), (15, 10, 0xfe2ce6e0), (6, 15, 0xa3014314), (13, 21, 0x4e0811a1),
     (4, 6, 0xf7537e82), (11, 10, 0xbd3af235), (2, 15, 0x2ad7d2bb), (9, 21, 0xeb86d391)]"

definition md5_block :: "md5_state \<Rightarrow> u32 list \<Rightarrow> md5_state" where
  "md5_block st m =
     (case st of (a0, b0, c0, d0) \<Rightarrow>
        case foldl (md5_step md5_I m)
               (foldl (md5_step md5_H m)
                  (foldl (md5_step md5_G m)
                     (foldl (md5_step md5_F m) st md5_round1) md5_round2) md5_round3) md5_round4
        of (a, b, c, d) \<Rightarrow> (add32 a0 a, add32 b0 b, add32 c0 c, add32 d0 d))"

fun le_words :: "int list \<Rightarrow> u32 list" where
  "le_words (b0 # b1 # b2 # b3 # bs) =
     (b0 + 256 * (b1 + 256 * (b2 + 256 * b3))) # le_words bs"
| "le_words _ = []"

fun md5_blocks :: "md5_state \<Rightarrow> int list \<Rightarrow> md5_state" where
  "md5_blocks st [] = st"
| "md5_blocks st bs = md5_blocks (md5_block st (le_words (take 64 bs))) (drop 64 bs)"

definition le_bytes4 :: "int \<Rightarrow> int list" where
  "le_bytes4 n = [n mod 256, n div 256 mod 256, n div 65536 mod 256, n div 16777216 mod 256]"

definition md5_pad :: "int list \<Rightarrow> int list" where
  "md5_pad bs =
     bs @ [128] @ replicate ((119 - length bs mod 64) mod 64) 0
        @ le_bytes4 ((8 * int (length bs)) mod 4294967296)
        @ le_bytes4 ((8 * int (length bs)) div 4294967296 mod 4294967296)"

definition md5_bytes :: "int list \<Rightarrow> int list" where
  "md5_bytes bs =
     (case md5_blocks (0x67452301, 0xefcdab89, 0x98badcfe, 0x10325476) (md5_pad bs) of
        (a, b, c, d) \<Rightarrow> concat (map le_bytes4 [a, b, c, d]))"

text \<open>
  \<^verbatim>\<open>md5(value)\<close> of the source returns \<^verbatim>\<open>hash.digest('binary')\<close>, a string of sixteen
  characters read only through \<^verbatim>\<open>charCodeAt\<close>; the model returns the sixteen character
  codes.
\<close>

definition md5 :: "string \<Rightarrow> int list" where
  "md5 s = md5_bytes (map of_char s)"

subsection \<open>Numbers and strings\<close>

text \<open>
  \<^verbatim>\<open>Number.prototype.toString()\<close> on an integer, as used by \<^verbatim>\<open>Array.prototype.join\<close>
  and by string concatenation.
\<close>

definition digit_char :: "int \<Rightarrow> char" where
  "digit_char d = ''0123456789'' ! nat d"

function decimal :: "int \<Rightarrow> string" where
  "decimal n = (if n < 10 then [digit_char n] else decimal (n div 10) @ [digit_char (n mod 10)])"
  by pat_completeness auto
termination
  by (relation "measure nat") auto

definition toString10 :: "int \<Rightarrow> string" where
  "toString10 n = (if n < 0 then CHR ''-'' # decimal (- n) else decimal n)"

text \<open>
  \<^verbatim>\<open>parseInt(s, 10)\<close>: leading white space is skipped, a sign is read, then the longest
  run of decimal digits; no digit gives \<^verbatim>\<open>NaN\<close>, which is \<open>None\<close>. The string comes from
  \<^verbatim>\<open>Buffer.prototype.toString()\<close>, so white space beyond ASCII appears in its UTF-8
  encoding.
\<close>

definition isDigit :: "char \<Rightarrow> bool" where
  "isDigit c = (48 \<le> (of_char c :: int) \<and> (of_char c :: int) \<le> 57)"

definition white_space :: "string list" where
  "white_space =
     [[CHR 0x09], [CHR 0x0A], [CHR 0x0B], [CHR 0x0C], [CHR 0x0D], [CHR 0x20],
      [CHR 0xC2, CHR 0xA0], [CHR 0xE1, CHR 0x9A, CHR 0x80],
      [CHR 0xE2, CHR 0x80, CHR 0x80], [CHR 0xE2, CHR 0x80, CHR 0x81],
      [CHR 0xE2, CHR 0x80, CHR 0x82], [CHR 0xE2, CHR 0x80, CHR 0x83],
      [CHR 0xE2, CHR 0x80, CHR 0x84], [CHR 0xE2, CHR 0x80, CHR 0x85],
      [CHR 0xE2, CHR 0x80, CHR 0x86], [CHR 0xE2, CHR 0x80, CHR 0x87],
      [CHR 0xE2, CHR 0x80, CHR 0x88], [CHR 0xE2, CHR 0x80, CHR 0x89],
      [CHR 0xE2, CHR 0x80, CHR 0x8A], [CHR 0xE2, CHR 0x80, CHR 0xA8],
      [CHR 0xE2, CHR 0x80, CHR 0xA9], [CHR 0xE2, CHR 0x80, CHR 0xAF],
      [CHR 0xE2, CHR 0x81, CHR 0x9F], [CHR 0xE3, CHR 0x80, CHR 0x80],
      [CHR 0xEF, CHR 0xBB, CHR 0xBF]]"

fun strip_prefix :: "string \<Rightarrow> string \<Rightarrow> string option" where
  "strip_prefix [] s = Some s"
| "strip_prefix (p # ps) [] = None"
| "strip_prefix (p # ps) (c # cs) = (if p = c then strip_prefix ps cs else None)"

fun strip_any :: "string list \<Rightarrow> string \<Rightarrow> string option" where
  "strip_any [] s = None"
| "strip_any (p # ps) s = (case strip_prefix p s of Some r \<Rightarrow> Some r | None \<Rightarrow> strip_any ps s)"

lemma strip_prefix_length: "strip_prefix p s = Some r \<Longrightarrow> length s = length p + length r"
  by (induction p s rule: strip_prefix.induct) (auto split: if_splits)

lemma strip_any_length:
  "strip_any ps s = Some r \<Longrightarrow> [] \<notin> set ps \<Longrightarrow> length r < length s"
proof (induction ps)
  case Nil
  then show ?case by simp
next
  case (Cons p ps)
  show ?case
  proof (cases "strip_prefix p s")
    case None
    with Cons show ?thesis by simp
  next
    case (Some r')
    with Cons.prems have "r' = r" and "p \<noteq> []" by auto
    with Some show ?thesis by (auto dest: strip_prefix_length)
  qed
qed

lemma white_space_nonempty: "[] \<notin> set white_space"
  by (simp add: white_space_def)

function skip_white_space :: "string \<Rightarrow> string" where
  "skip_white_space s =
     (case strip_any white_space s of None \<Rightarrow> s | Some r \<Rightarrow> skip_white_space r)"
  by pat_completeness auto
termination
  by (relation "measure length") (auto dest: strip_any_length simp: white_space_nonempty)

fun digits_value :: "int \<Rightarrow> string \<Rightarrow> int" where
  "digits_value acc [] = acc"
| "digits_value acc (c # cs) = digits_value (10 * acc + (of_char c - 48)) cs"

definition parseInt10 :: "string \<Rightarrow> int option" where
  "parseInt10 s =
     (let t = skip_white_space s;
          neg = (case t of c # _ \<Rightarrow> c = CHR ''-'' | [] \<Rightarrow> False);
          u = (case t of c # r \<Rightarrow> if c = CHR ''-'' \<or> c = CHR ''+'' then r else t | [] \<Rightarrow> []);
          ds = takeWhile isDigit u
      in if ds = [] then None
         else Some (if neg then - digits_value 0 ds else digits_value 0 ds))"

text \<open>\<^verbatim>\<open>buffertools.indexOf(buffer, ':')\<close>: the first position of the byte, or \<open>-1\<close>.\<close>

fun indexOf :: "string \<Rightarrow> char \<Rightarrow> int" where
  "indexOf [] c = -1"
| "indexOf (x # xs) c = (if x = c then 0 else (let i = indexOf xs c in if i < 0 then -1 else i + 1))"

subsection \<open>The regular expression of \<^verbatim>\<open>isMulticastAddress\<close>\<close>

text \<open>
  \<^verbatim>\<open>/2(?:2[4-9]|3\d)(?:\.(?:25[0-5]|2[0-4]\d|1\d\d|[1-9]\d?|0)){3}/g\<close>.
  Each matcher returns the list of remainders it can leave behind, alternatives in the
  order a backtracking engine tries them; the expression matches at a position when the
  last list is not empty.
\<close>

definition char_in :: "char \<Rightarrow> char \<Rightarrow> char \<Rightarrow> bool" where
  "char_in lo hi c = ((of_char lo :: int) \<le> of_char c \<and> (of_char c :: int) \<le> of_char hi)"

definition re_first :: "string \<Rightarrow> string list" where
  "re_first s =
     (case s of
        a # b # c # r \<Rightarrow>
          if a = CHR ''2'' \<and> ((b = CHR ''2'' \<and> char_in CHR ''4'' CHR ''9'' c) \<or> (b = CHR ''3'' \<and> isDigit c))
          then [r] else []
      | _ \<Rightarrow> [])"

definition re_three :: "(char \<Rightarrow> bool) \<Rightarrow> (char \<Rightarrow> bool) \<Rightarrow> (char \<Rightarrow> bool) \<Rightarrow> string \<Rightarrow> string list" where
  "re_three p q r s =
     (case s of a # b # c # t \<Rightarrow> if p a \<and> q b \<and> r c then [t] else [] | _ \<Rightarrow> [])"

definition re_nonzero :: "string \<Rightarrow> string list" where
  "re_nonzero s =
     (case s of
        a # t \<Rightarrow>
          if char_in CHR ''1'' CHR ''9'' a
          then (case t of b # t' \<Rightarrow> if isDigit b then [t', t] else [t] | [] \<Rightarrow> [t])
          else []
      | [] \<Rightarrow> [])"

definition re_zero :: "string \<Rightarrow> string list" where
  "re_zero s = (case s of a # t \<Rightarrow> if a = CHR ''0'' then [t] else [] | [] \<Rightarrow> [])"

definition re_dot_octet :: "string \<Rightarrow> string list" where
  "re_dot_octet s =
     (case s of
        d # t \<Rightarrow>
          if d = CHR ''.''
          then re_three (\<lambda>c. c = CHR ''2'') (\<lambda>c. c = CHR ''5'') (char_in CHR ''0'' CHR ''5'') t
             @ re_three (\<lambda>c. c = CHR ''2'') (char_in CHR ''0'' CHR ''4'') isDigit t
             @ re_three (\<lambda>c. c = CHR ''1'') isDigit isDigit t
             @ re_nonzero t
             @ re_zero t
          else []
      | [] \<Rightarrow> [])"

fun re_then :: "(string \<Rightarrow> string list) \<Rightarrow> string list \<Rightarrow> string list" where
  "re_then m [] = []"
| "re_then m (s # ss) = m s @ re_then m ss"

definition re_match_at :: "string \<Rightarrow> string list" where
  "re_match_at s = re_then re_dot_octet (re_then re_dot_octet (re_then re_dot_octet (re_first s)))"

fun re_test :: "string \<Rightarrow> bool" where
  "re_test [] = (re_match_at [] \<noteq> [])"
| "re_test (c # cs) = (re_match_at (c # cs) \<noteq> [] \<or> re_test cs)"

definition isMulticastAddress :: "string \<Rightarrow> bool" where
  "isMulticastAddress ip = re_test ip"

text \<open>
  What the documentation calls a valid multicast address: the whole string is one
  dotted quad of the shape above, nothing before it and nothing after it.
\<close>

definition valid_multicast_address :: "string \<Rightarrow> bool" where
  "valid_multicast_address s = ([] \<in> set (re_match_at s))"


section \<open>Data model\<close>

text \<open>
  Every \<^verbatim>\<open>throw\<close> of the source is a constructor of \<open>error\<close>. The first five are
  thrown by the constructor (the configuration errors of the documentation), the next
  three by the registry, \<open>UnexpectedEvent\<close> by \<^verbatim>\<open>handleEvent\<close>. \<open>LibraryError\<close> stands for
  whatever a cipher or the codec throws, \<open>SocketError\<close> for what \<^verbatim>\<open>dgram\<close> throws when a
  socket is asked to leave a group it is not a member of, \<open>TypeError\<close> and \<open>RangeError\<close>
  for the runtime's own errors on a missing property and on unbounded recursion.
\<close>

text \<open>An argument of an event, as the codec returns it; the first argument on the wire is the event name.\<close>

datatype arg = AString string | ANumber int | ABool bool | ABlob string | ANull

datatype error =
    TtlError
  | InterfaceError string
  | ForeignOnlyError
  | OctetError
  | PortError
  | RequiresEvent
  | RequiresEventAndListener
  | PortAssigned string int string
  | UnexpectedEvent "arg option" string
  | LibraryError
  | SocketError
  | TypeError
  | RangeError

definition is_ConfigError :: "error \<Rightarrow> bool" where
  "is_ConfigError e =
     (case e of
        TtlError \<Rightarrow> True | InterfaceError _ \<Rightarrow> True | ForeignOnlyError \<Rightarrow> True
      | OctetError \<Rightarrow> True | PortError \<Rightarrow> True | _ \<Rightarrow> False)"

datatype 'a result = Return 'a | Throw error

text \<open>
  A listener is a function object. \<open>Handler src n\<close> is a function of the program that
  uses the emitter: its source text and a number that tells function objects apart.
  \<open>OnceListener ev l\<close> is the function \<^verbatim>\<open>onceListener\<close> that \<^verbatim>\<open>once(ev, l)\<close> creates, with
  the event and the listener of its closure. \<^verbatim>\<open>removeListener\<close> compares listeners by
  \<^verbatim>\<open>toString()\<close>, the source text of the function: two different function objects may
  have the same text, and every \<^verbatim>\<open>onceListener\<close> has the same text (written here on one
  line).
\<close>

datatype handler = Handler string nat | OnceListener string handler

fun toString :: "handler \<Rightarrow> string" where
  "toString (Handler src n) = src"
| "toString (OnceListener ev l) =
     ''function onceListener() { self.removeListener(event, onceListener); listener.apply(undefined, arguments); }''"

text \<open>
  The process and the libraries around the emitter: \<^verbatim>\<open>process.pid\<close>, the addresses
  \<^verbatim>\<open>os.networkInterfaces()\<close> lists for each interface (each with its \<^verbatim>\<open>internal\<close> flag),
  \<^verbatim>\<open>crypto.createCipher(cipher, secret)\<close> and \<^verbatim>\<open>crypto.createDecipher(cipher, secret)\<close>
  run over a whole buffer (\<^verbatim>\<open>update\<close> then \<^verbatim>\<open>final\<close>), and the two directions of
  \<^verbatim>\<open>amp-message\<close>.
\<close>

record env =
  pid :: int
  networkInterfaces :: "(string \<times> bool) list list"
  createCipher :: "string \<Rightarrow> string \<Rightarrow> string \<Rightarrow> string result"
  createDecipher :: "string \<Rightarrow> string \<Rightarrow> string \<Rightarrow> string result"
  pack :: "arg list \<Rightarrow> string"
  unpack :: "string \<Rightarrow> arg list result"

text \<open>
  A UDP socket of \<^verbatim>\<open>dgram\<close>, as far as the emitter drives it. \<open>sock_bound\<close> is the port and
  address handed to \<^verbatim>\<open>bind\<close>: the bind that was asked for, whatever the operating system
  makes of it. \<^verbatim>\<open>bind\<close> returns at once; its callback runs later, when and if the socket
  is bound. \<open>sock_onListening\<close> is that callback while it has not run: the event of its
  closure. \<open>sock_processMessage\<close> is the \<^verbatim>\<open>'message'\<close> callback the bind callback of a
  receiver installs: the variable \<^verbatim>\<open>processMessage\<close> of its closure, \<open>None\<close> while there
  is no such callback.
\<close>

record socket =
  sock_open :: bool
  sock_bound :: "(int \<times> string) option"
  sock_ttl :: "int option"
  sock_loopback :: "bool option"
  sock_membership :: "(string \<times> string option) list"
  sock_onListening :: "string option"
  sock_processMessage :: "bool option"

text \<open>
  An entry of \<^verbatim>\<open>this.listeners\<close>: the receiving socket (its index in the socket store)
  and the handlers.
\<close>

record channel =
  receiver :: nat
  handlers :: "handler list"

record emitter =
  name :: string
  app_id :: string
  secret :: "string option"
  cipher :: string
  ttl :: int
  interface :: "string option"
  loopback :: bool
  foreignOnly :: bool
  octet :: int
  base_port :: int
  group_id :: string
  address :: string
  events :: "(string \<times> int) list"
  listeners :: "(string \<times> channel) list"
  sockets :: "socket list"
  sender :: nat

text \<open>The options object; \<open>None\<close> is a property that is not given.\<close>

record opts =
  opt_name :: "string option"
  opt_id :: "string option"
  opt_secret :: "string option"
  opt_cipher :: "string option"
  opt_ttl :: "int option"
  opt_interface :: "string option"
  opt_loopback :: "bool option"
  opt_foreignOnly :: "bool option"
  opt_octet :: "int option"
  opt_port :: "int option"
  opt_group :: "string option"
  opt_events :: "(string \<times> int) list option"

definition no_opts :: opts where
  "no_opts = \<lparr>opt_name = None, opt_id = None, opt_secret = None, opt_cipher = None,
     opt_ttl = None, opt_interface = None, opt_loopback = None, opt_foreignOnly = None,
     opt_octet = None, opt_port = None, opt_group = None, opt_events = None\<rparr>"

text \<open>\<^verbatim>\<open>x || d\<close> on a string and on a number: the empty string, \<open>0\<close> and a missing value are falsy.\<close>

definition or_string :: "string option \<Rightarrow> string \<Rightarrow> string" where
  "or_string x d = (case x of None \<Rightarrow> d | Some v \<Rightarrow> if v = [] then d else v)"

definition or_number :: "int option \<Rightarrow> int \<Rightarrow> int" where
  "or_number x d = (case x of None \<Rightarrow> d | Some v \<Rightarrow> if v = 0 then d else v)"

definition truthy_string :: "string option \<Rightarrow> bool" where
  "truthy_string x = (case x of None \<Rightarrow> False | Some v \<Rightarrow> v \<noteq> [])"

definition truthy_number :: "int option \<Rightarrow> bool" where
  "truthy_number x = (case x of None \<Rightarrow> False | Some v \<Rightarrow> v \<noteq> 0)"

section \<open>Configuration and derivation\<close>

definition ttlMin :: int where "ttlMin = 1"
definition ttlMax :: int where "ttlMax = 255"
definition octetMin :: int where "octetMin = 224"
definition octetMax :: int where "octetMax = 239"
definition portMin :: int where "portMin = 1024"
definition portMax :: int where "portMax = 16384"

text \<open>\<^verbatim>\<open>verifyAddress\<close>: some interface lists the address and is not internal.\<close>

definition verifyAddress :: "env \<Rightarrow> string \<Rightarrow> bool" where
  "verifyAddress en a = list_ex (list_ex (\<lambda>(ad, internal). ad = a \<and> \<not> internal)) (networkInterfaces en)"

text \<open>
  The four numbers the constructor joins with dots when the group is hashed: the
  configured octet, digest bytes 0 and 1, and digest byte 2 with 0 and 255 replaced by 1.
\<close>

definition derived_octets :: "int \<Rightarrow> string \<Rightarrow> int list" where
  "derived_octets oc g =
     (let hash = md5 g
      in [oc, hash ! 0, hash ! 1, (if hash ! 2 = 0 \<or> hash ! 2 = 255 then 1 else hash ! 2)])"

fun join_dot :: "string list \<Rightarrow> string" where
  "join_dot [] = []"
| "join_dot [x] = x"
| "join_dot (x # y # ys) = x @ CHR ''.'' # join_dot (y # ys)"

definition derive_address :: "int \<Rightarrow> string \<Rightarrow> string" where
  "derive_address oc g =
     (if isMulticastAddress g then g else join_dot (map toString10 (derived_octets oc g)))"

text \<open>
  \<^verbatim>\<open>new EventEmitter(opts)\<close>. \<open>counter\<close> is the value of the module variable
  \<^verbatim>\<open>emitterCounter\<close> at the call, which the constructor increments. The sender socket is
  socket 0 of the new emitter; its bind callback (broadcast off, TTL, loopback) is taken
  as run.
\<close>

definition EventEmitter :: "env \<Rightarrow> int \<Rightarrow> opts \<Rightarrow> emitter result" where
  "EventEmitter en counter opts =
     (let nm = or_string (opt_name opts) (''emitter #'' @ toString10 counter);
          t = or_number (opt_ttl opts) 64
      in if t < ttlMin \<or> t > ttlMax then Throw TtlError
         else if truthy_string (opt_interface opts) \<and> \<not> verifyAddress en (the (opt_interface opts))
         then Throw (InterfaceError (the (opt_interface opts)))
         else
           let lb = (case opt_loopback opts of None \<Rightarrow> True | Some b \<Rightarrow> b);
               fo = (case opt_foreignOnly opts of None \<Rightarrow> False | Some b \<Rightarrow> b)
           in if \<not> lb \<and> fo then Throw ForeignOnlyError
              else
                let oc = or_number (opt_octet opts) 239
                in if oc < octetMin \<or> oc > octetMax then Throw OctetError
                   else
                     let p = or_number (opt_port opts) 1967
                     in if p < portMin \<or> p > portMax then Throw PortError
                        else
                          let g = or_string (opt_group opts) ''events''
                          in Return \<lparr>name = nm,
                               app_id = or_string (opt_id opts) ''default'',
                               secret = opt_secret opts,
                               cipher = or_string (opt_cipher opts) ''aes256'',
                               ttl = t,
                               interface = opt_interface opts,
                               loopback = lb,
                               foreignOnly = fo,
                               octet = oc,
                               base_port = p,
                               group_id = g,
                               address = derive_address oc g,
                               events = (case opt_events opts of None \<Rightarrow> [] | Some es \<Rightarrow> es),
                               listeners = [],
                               sockets = [\<lparr>sock_open = True, sock_bound = None, sock_ttl = Some t,
                                           sock_loopback = Some lb, sock_membership = [],
                                           sock_onListening = None, sock_processMessage = None\<rparr>],
                               sender = 0\<rparr>)"

definition getAddress :: "emitter \<Rightarrow> string" where
  "getAddress em = address em"

text \<open>\<^verbatim>\<open>generatePort\<close>: the last digest byte, and the one before it modulo 128 as the high part.\<close>

definition generatePort :: "emitter \<Rightarrow> string \<Rightarrow> int" where
  "generatePort em ev =
     (let hash = md5 (app_id em @ ''::'' @ group_id em @ ''::'' @ ev)
      in base_port em + hash ! (length hash - 1) + 256 * ((hash ! (length hash - 2)) mod 128))"

text \<open>
  \<^verbatim>\<open>getPort\<close>: an own property of \<^verbatim>\<open>this.events\<close> is returned as it is; otherwise the
  generated port is stored under the event name and returned.
\<close>

definition getPort :: "string \<Rightarrow> emitter \<Rightarrow> int result \<times> emitter" where
  "getPort ev em =
     (if ev = [] then (Throw RequiresEvent, em)
      else case map_of (events em) ev of
             Some p \<Rightarrow> (Return p, em)
           | None \<Rightarrow>
               let p = generatePort em ev
               in (Return p, em\<lparr>events := events em @ [(ev, p)]\<rparr>))"

text \<open>
  \<^verbatim>\<open>this.events\<close> once \<^verbatim>\<open>getPort\<close> has run for the event: a call with a non-empty name
  returns the entry of this table and changes nothing else.
\<close>

definition cachedEvents :: "string \<Rightarrow> emitter \<Rightarrow> (string \<times> int) list" where
  "cachedEvents ev em =
     (case map_of (events em) ev of
        Some p \<Rightarrow> events em
      | None \<Rightarrow> events em @ [(ev, generatePort em ev)])"

lemma generatePort_cong:
  "app_id em' = app_id em \<Longrightarrow> group_id em' = group_id em \<Longrightarrow> base_port em' = base_port em
   \<Longrightarrow> generatePort em' ev = generatePort em ev"
  by (simp add: generatePort_def)

lemma getPort_eq:
  "ev \<noteq> [] \<Longrightarrow> getPort ev em =
     (Return (the (map_of (cachedEvents ev em) ev)), em\<lparr>events := cachedEvents ev em\<rparr>)"
  by (auto simp: getPort_def cachedEvents_def Let_def map_add_def split: option.splits)

lemma cachedEvents_idem:
  "events em' = cachedEvents ev em \<Longrightarrow> app_id em' = app_id em \<Longrightarrow> group_id em' = group_id em
   \<Longrightarrow> base_port em' = base_port em \<Longrightarrow> cachedEvents ev em' = cachedEvents ev em"
  by (auto simp: cachedEvents_def map_of_append generatePort_def split: option.splits)

lemma cachedEvents_cong:
  "events em' = events em \<Longrightarrow> app_id em' = app_id em \<Longrightarrow> group_id em' = group_id em
   \<Longrightarrow> base_port em' = base_port em \<Longrightarrow> cachedEvents ev em' = cachedEvents ev em"
  by (auto simp: cachedEvents_def generatePort_def split: option.splits)

lemma cachedEvents_simps [simp]:
  "cachedEvents ev (em\<lparr>listeners := L\<rparr>) = cachedEvents ev em"
  "cachedEvents ev (em\<lparr>sockets := S\<rparr>) = cachedEvents ev em"
  "cachedEvents ev (em\<lparr>events := cachedEvents ev em\<rparr>) = cachedEvents ev em"
  "cachedEvents ev (em\<lparr>listeners := L, events := cachedEvents ev em\<rparr>) = cachedEvents ev em"
  "cachedEvents ev (em\<lparr>sockets := S, listeners := L, events := cachedEvents ev em\<rparr>) = cachedEvents ev em"
  by (auto simp: cachedEvents_def generatePort_def map_add_def split: option.splits)

section \<open>The registry of listeners\<close>

definition hasReceiver :: "emitter \<Rightarrow> string \<Rightarrow> bool result" where
  "hasReceiver em ev =
     (if ev = [] then Throw RequiresEvent
      else Return (map_of (listeners em) ev \<noteq> None))"

definition hasListeners :: "emitter \<Rightarrow> string \<Rightarrow> bool result" where
  "hasListeners em ev =
     (if ev = [] then Throw RequiresEvent
      else Return (case map_of (listeners em) ev of None \<Rightarrow> False | Some ch \<Rightarrow> handlers ch \<noteq> []))"

text \<open>
  \<^verbatim>\<open>hasEventWithPort\<close>: a falsy port is replaced by the generated one; the result is the
  first name of \<^verbatim>\<open>this.events\<close>, in enumeration order, that holds the port.
\<close>

definition hasEventWithPort :: "emitter \<Rightarrow> string \<Rightarrow> int option \<Rightarrow> string option" where
  "hasEventWithPort em ev p =
     (let q = (if truthy_number p then the p else generatePort em ev)
      in map_option fst (find (\<lambda>kv. snd kv = q) (events em)))"

text \<open>
  \<^verbatim>\<open>fullDefined(event, port)\<close> asks whether \<^verbatim>\<open>event\<close> itself, the first argument, has a
  receiver and listeners, and only then looks the port up; otherwise it is \<^verbatim>\<open>null\<close>.
\<close>

definition fullDefined :: "emitter \<Rightarrow> string \<Rightarrow> int option \<Rightarrow> string option result" where
  "fullDefined em ev p =
     (case hasReceiver em ev of
        Throw e \<Rightarrow> Throw e
      | Return r \<Rightarrow>
          if \<not> r then Return None
          else (case hasListeners em ev of
                  Throw e \<Rightarrow> Throw e
                | Return l \<Rightarrow> if l then Return (hasEventWithPort em ev p) else Return None))"

text \<open>
  The body of \<^verbatim>\<open>if (!this.hasReceiver(event))\<close> in \<^verbatim>\<open>addListener\<close>: a new socket, the
  entry of \<^verbatim>\<open>this.listeners\<close>, and the call of \<^verbatim>\<open>receiver.bind\<close> with the port of the
  event, the address of the group and a callback. \<^verbatim>\<open>bind\<close> only records what is asked
  for: when \<^verbatim>\<open>addListener\<close> returns the callback has not run, so the socket has no TTL,
  is a member of no group and has no \<^verbatim>\<open>'message'\<close> callback. The port is taken to be one
  that \<^verbatim>\<open>bind\<close> accepts as an argument, as every generated port is.
\<close>

definition openReceiver :: "string \<Rightarrow> emitter \<Rightarrow> unit result \<times> emitter" where
  "openReceiver ev em =
     (let r = length (sockets em);
          fresh = \<lparr>sock_open = True, sock_bound = None, sock_ttl = None,
                    sock_loopback = None, sock_membership = [],
                    sock_onListening = None, sock_processMessage = None\<rparr>;
          entry = (case map_of (listeners em) ev of
                     Some ch \<Rightarrow> ch
                   | None \<Rightarrow> \<lparr>receiver = r, handlers = []\<rparr>);
          em1 = em\<lparr>sockets := sockets em @ [fresh],
                   listeners := AList.update ev entry (listeners em)\<rparr>
      in case getPort ev em1 of
           (Throw e, em2) \<Rightarrow> (Throw e, em2)
         | (Return p, em2) \<Rightarrow>
             (Return (),
              em2\<lparr>sockets := (sockets em2)
                 [r := fresh\<lparr>sock_bound := Some (p, getAddress em2),
                             sock_onListening := Some ev\<rparr>]\<rparr>))"

text \<open>
  The callback given to \<^verbatim>\<open>receiver.bind\<close>, run by the event loop once socket \<open>r\<close> is
  bound: TTL, \<^verbatim>\<open>addMembership\<close>, loopback, \<^verbatim>\<open>var processMessage = true\<close>, the
  \<^verbatim>\<open>'message'\<close> callback, and a \<^verbatim>\<open>debug\<close> line with \<^verbatim>\<open>getPort\<close>. It runs at most once, and
  not at all when the bind fails (the port is taken, the address is not one of the
  host): a socket with no pending callback, or a closed one, is left as it is. The
  calls on the bound socket are taken as successful.
\<close>

definition onListening :: "nat \<Rightarrow> emitter \<Rightarrow> unit result \<times> emitter" where
  "onListening r em =
     (if r < length (sockets em) then
        (case sock_onListening (sockets em ! r) of
           None \<Rightarrow> (Return (), em)
         | Some ev \<Rightarrow>
             if sock_open (sockets em ! r) then
               (let sk = (sockets em ! r)
                      \<lparr>sock_ttl := Some (ttl em),
                       sock_membership := sock_membership (sockets em ! r) @ [(getAddress em, interface em)],
                       sock_loopback := Some (loopback em),
                       sock_onListening := None,
                       sock_processMessage := Some True\<rparr>;
                    em1 = em\<lparr>sockets := (sockets em)[r := sk]\<rparr>
                in case getPort ev em1 of
                     (Throw e, em2) \<Rightarrow> (Throw e, em2)
                   | (Return _, em2) \<Rightarrow> (Return (), em2))
             else (Return (), em))
      else (Return (), em))"

text \<open>\<^verbatim>\<open>this.listeners[event].handlers.push(listener)\<close>.\<close>

definition pushHandler :: "string \<Rightarrow> handler \<Rightarrow> emitter \<Rightarrow> unit result \<times> emitter" where
  "pushHandler ev l em =
     (case map_of (listeners em) ev of
        None \<Rightarrow> (Throw TypeError, em)
      | Some ch \<Rightarrow>
          (Return (),
           em\<lparr>listeners := AList.update ev (ch\<lparr>handlers := handlers ch @ [l]\<rparr>) (listeners em)\<rparr>))"

text \<open>
  \<^verbatim>\<open>addListener(event, listener)\<close>. The arguments of \<^verbatim>\<open>util.format\<close> and of \<^verbatim>\<open>debug\<close> are
  evaluated, so \<^verbatim>\<open>getPort\<close> runs there too.
\<close>

definition addListener :: "string \<Rightarrow> handler \<Rightarrow> emitter \<Rightarrow> unit result \<times> emitter" where
  "addListener ev l em =
     (case fullDefined em ev (map_of (events em) ev) of
        Throw e \<Rightarrow> (Throw e, em)
      | Return definedEvent \<Rightarrow>
          if truthy_string definedEvent \<and> definedEvent \<noteq> Some ev
          then (case getPort ev em of
                  (Throw e, em1) \<Rightarrow> (Throw e, em1)
                | (Return p, em1) \<Rightarrow> (Throw (PortAssigned ev p (the definedEvent)), em1))
          else
            (case hasReceiver em ev of
               Throw e \<Rightarrow> (Throw e, em)
             | Return r \<Rightarrow>
                 (case (if \<not> r then openReceiver ev em else (Return (), em)) of
                    (Throw e, em1) \<Rightarrow> (Throw e, em1)
                  | (Return _, em1) \<Rightarrow>
                      (case pushHandler ev l em1 of
                         (Throw e, em2) \<Rightarrow> (Throw e, em2)
                       | (Return _, em2) \<Rightarrow>
                           (case getPort ev em2 of
                              (Throw e, em3) \<Rightarrow> (Throw e, em3)
                            | (Return _, em3) \<Rightarrow> (Return (), em3))))))"

text \<open>
  The tear-down inside the loop of \<^verbatim>\<open>removeListener\<close>:
  \<^verbatim>\<open>receiver.dropMembership(this.getAddress(), this.interface)\<close>, then \<^verbatim>\<open>receiver.close()\<close>,
  then \<^verbatim>\<open>delete this.listeners[event]\<close>, and one more \<^verbatim>\<open>debug\<close> line with \<^verbatim>\<open>getPort\<close>.
  \<^verbatim>\<open>dropMembership\<close> throws on a socket that is not a member of the group, as every
  receiver is until its bind callback has run; nothing catches the error, so the socket
  is not closed and the entry is not deleted.
\<close>

definition closeReceiver :: "string \<Rightarrow> emitter \<Rightarrow> unit result \<times> emitter" where
  "closeReceiver ev em =
     (case map_of (listeners em) ev of
        None \<Rightarrow> (Throw TypeError, em)
      | Some ch \<Rightarrow>
          let r = receiver ch
          in if r < length (sockets em) \<and> sock_open (sockets em ! r)
                \<and> (getAddress em, interface em) \<in> set (sock_membership (sockets em ! r))
             then
               (let sk = sockets em ! r;
                    sk1 = sk\<lparr>sock_membership :=
                              removeAll (getAddress em, interface em) (sock_membership sk)\<rparr>;
                    sk2 = sk1\<lparr>sock_open := False\<rparr>;
                    em1 = em\<lparr>sockets := (sockets em)[r := sk2],
                             listeners := AList.delete ev (listeners em)\<rparr>
                in (case getPort ev em1 of
                      (Throw e, em2) \<Rightarrow> (Throw e, em2)
                    | (Return _, em2) \<Rightarrow> (Return (), em2)))
             else (Throw SocketError, em))"

text \<open>
  \<^verbatim>\<open>handlers.splice(i, 1)\<close>. The local \<^verbatim>\<open>handlers\<close> is the very array held by
  \<^verbatim>\<open>this.listeners[event]\<close>, so the entry, while it exists, sees the removal.
\<close>

definition splice1 :: "nat \<Rightarrow> 'a list \<Rightarrow> 'a list" where
  "splice1 i xs = take i xs @ drop (Suc i) xs"

definition storeHandlers :: "string \<Rightarrow> handler list \<Rightarrow> emitter \<Rightarrow> emitter" where
  "storeHandlers ev hs em =
     (case map_of (listeners em) ev of
        None \<Rightarrow> em
      | Some ch \<Rightarrow> em\<lparr>listeners := AList.update ev (ch\<lparr>handlers := hs\<rparr>) (listeners em)\<rparr>)"

text \<open>
  \<^verbatim>\<open>for (i = handlers.length - 1; i >= 0; i--)\<close>: the first argument is \<open>i + 1\<close>. The
  result is the flag \<^verbatim>\<open>match\<close>. There is no \<^verbatim>\<open>break\<close>: the loop visits every index.
\<close>

fun removeLoop ::
  "nat \<Rightarrow> string \<Rightarrow> handler \<Rightarrow> handler list \<Rightarrow> bool \<Rightarrow> emitter \<Rightarrow> bool result \<times> emitter" where
  "removeLoop 0 ev l hs match em = (Return match, em)"
| "removeLoop (Suc i) ev l hs match em =
     (if i < length hs then
        if toString (hs ! i) = toString l then
          let hs' = splice1 i hs;
              em1 = storeHandlers ev hs' em
          in (case getPort ev em1 of
                (Throw e, em2) \<Rightarrow> (Throw e, em2)
              | (Return _, em2) \<Rightarrow>
                  if hs' = [] then
                    (case closeReceiver ev em2 of
                       (Throw e, em3) \<Rightarrow> (Throw e, em3)
                     | (Return _, em3) \<Rightarrow> removeLoop i ev l hs' True em3)
                  else removeLoop i ev l hs' True em2)
        else removeLoop i ev l hs match em
      else (Throw TypeError, em))"

text \<open>
  \<^verbatim>\<open>removeListener(event, listener)\<close>. A listener is always given in the model, so the
  guard reduces to the event name. Without a match one \<^verbatim>\<open>debug\<close> line runs \<^verbatim>\<open>getPort\<close>.
\<close>

definition removeListener :: "string \<Rightarrow> handler \<Rightarrow> emitter \<Rightarrow> unit result \<times> emitter" where
  "removeListener ev l em =
     (if ev = [] then (Throw RequiresEventAndListener, em)
      else case hasListeners em ev of
             Throw e \<Rightarrow> (Throw e, em)
           | Return False \<Rightarrow> (Return (), em)
           | Return True \<Rightarrow>
               (case map_of (listeners em) ev of
                  None \<Rightarrow> (Throw TypeError, em)
                | Some ch \<Rightarrow>
                    (case removeLoop (length (handlers ch)) ev l (handlers ch) False em of
                       (Throw e, em1) \<Rightarrow> (Throw e, em1)
                     | (Return match, em1) \<Rightarrow>
                         if \<not> match
                         then (case getPort ev em1 of
                                 (Throw e, em2) \<Rightarrow> (Throw e, em2)
                               | (Return _, em2) \<Rightarrow> (Return (), em2))
                         else (Return (), em1))))"

subsection \<open>What one call of \<^verbatim>\<open>addListener\<close> does\<close>

text \<open>
  Two cases: the event has no entry in \<^verbatim>\<open>this.listeners\<close>, or it has one. Only the
  second can throw, and only when \<open>collides\<close> holds: the event itself has handlers
  already and the first name holding its port in \<^verbatim>\<open>this.events\<close> is another one.
\<close>

lemma update_fresh: "map_of al k = None \<Longrightarrow> AList.update k v al = al @ [(k, v)]"
  by (induction al) (auto split: if_splits)

lemma update_fresh_last: "map_of al k = None \<Longrightarrow> AList.update k w (al @ [(k, v)]) = al @ [(k, w)]"
  by (induction al) (auto split: if_splits)

lemma addListener_no_event: "addListener [] l em = (Throw RequiresEvent, em)"
  by (simp add: addListener_def fullDefined_def hasReceiver_def)

definition newReceiver :: "string \<Rightarrow> emitter \<Rightarrow> socket" where
  "newReceiver ev em =
     \<lparr>sock_open = True, sock_bound = Some (the (map_of (cachedEvents ev em) ev), getAddress em),
      sock_ttl = None, sock_loopback = None, sock_membership = [],
      sock_onListening = Some ev, sock_processMessage = None\<rparr>"

lemma addListener_fresh:
  assumes "ev \<noteq> []" and "map_of (listeners em) ev = None"
  shows "addListener ev l em =
    (Return (),
     em\<lparr>events := cachedEvents ev em,
        listeners := listeners em @ [(ev, \<lparr>receiver = length (sockets em), handlers = [l]\<rparr>)],
        sockets := sockets em @ [newReceiver ev em]\<rparr>)"
  using assms
  by (simp add: addListener_def fullDefined_def hasReceiver_def openReceiver_def pushHandler_def
      getPort_eq Let_def update_fresh update_fresh_last AList.update_conv' newReceiver_def
      getAddress_def truthy_string_def map_add_def)

definition collides :: "emitter \<Rightarrow> string \<Rightarrow> channel \<Rightarrow> bool" where
  "collides em ev ch =
     (handlers ch \<noteq> [] \<and>
      truthy_string (hasEventWithPort em ev (map_of (events em) ev)) \<and>
      hasEventWithPort em ev (map_of (events em) ev) \<noteq> Some ev)"

lemma addListener_known:
  assumes "ev \<noteq> []" and "map_of (listeners em) ev = Some ch"
  shows "addListener ev l em =
    (if collides em ev ch
     then (Throw (PortAssigned ev (the (map_of (cachedEvents ev em) ev))
                    (the (hasEventWithPort em ev (map_of (events em) ev)))),
           em\<lparr>events := cachedEvents ev em\<rparr>)
     else (Return (),
           em\<lparr>events := cachedEvents ev em,
              listeners := AList.update ev (ch\<lparr>handlers := handlers ch @ [l]\<rparr>) (listeners em)\<rparr>))"
  using assms
  by (simp add: addListener_def fullDefined_def hasReceiver_def hasListeners_def pushHandler_def
      getPort_eq Let_def collides_def truthy_string_def)

subsection \<open>What the bind callback does\<close>

text \<open>The receiver once its bind callback has run.\<close>

definition listeningSocket :: "emitter \<Rightarrow> socket \<Rightarrow> socket" where
  "listeningSocket em sk =
     sk\<lparr>sock_ttl := Some (ttl em),
        sock_membership := sock_membership sk @ [(getAddress em, interface em)],
        sock_loopback := Some (loopback em),
        sock_onListening := None,
        sock_processMessage := Some True\<rparr>"

lemma onListening_pending:
  assumes "r < length (sockets em)" and "sock_onListening (sockets em ! r) = Some ev"
    and "sock_open (sockets em ! r)" and "ev \<noteq> []"
  shows "onListening r em =
    (Return (), em\<lparr>events := cachedEvents ev em,
                  sockets := (sockets em)[r := listeningSocket em (sockets em ! r)]\<rparr>)"
  using assms by (simp add: onListening_def getPort_eq Let_def listeningSocket_def)

lemma onListening_idle:
  "r \<ge> length (sockets em) \<or> sock_onListening (sockets em ! r) = None \<or> \<not> sock_open (sockets em ! r)
   \<Longrightarrow> onListening r em = (Return (), em)"
  by (auto simp: onListening_def split: option.splits)

subsection \<open>What one call of \<^verbatim>\<open>removeListener\<close> does\<close>

text \<open>
  The loop is characterised by three functions. \<open>joined\<close>: the receiver of the entry is
  an open socket that is a member of the group of the emitter, so \<^verbatim>\<open>dropMembership\<close>
  returns. \<open>afterRemove\<close>: the emitter once all matching handlers are gone. When no
  handler is left and the receiver has joined, the entry is deleted and the socket
  closed; when no handler is left and the receiver has not joined, the entry stays with
  an empty list of handlers and an open socket, and the call throws (\<open>removeOutcome\<close>).
\<close>

definition joined :: "emitter \<Rightarrow> channel \<Rightarrow> bool" where
  "joined em ch =
     (receiver ch < length (sockets em) \<and> sock_open (sockets em ! receiver ch)
      \<and> (getAddress em, interface em) \<in> set (sock_membership (sockets em ! receiver ch)))"

definition closedSocket :: "emitter \<Rightarrow> socket \<Rightarrow> socket" where
  "closedSocket em sk =
     sk\<lparr>sock_membership := removeAll (getAddress em, interface em) (sock_membership sk),
        sock_open := False\<rparr>"

definition afterRemove :: "string \<Rightarrow> channel \<Rightarrow> handler list \<Rightarrow> emitter \<Rightarrow> emitter" where
  "afterRemove ev ch hs em =
     (if hs = [] \<and> joined em ch
      then em\<lparr>events := cachedEvents ev em,
              listeners := AList.delete ev (listeners em),
              sockets := (sockets em)[receiver ch := closedSocket em (sockets em ! receiver ch)]\<rparr>
      else em\<lparr>events := cachedEvents ev em,
              listeners := AList.update ev (ch\<lparr>handlers := hs\<rparr>) (listeners em)\<rparr>)"

definition removeOutcome :: "emitter \<Rightarrow> channel \<Rightarrow> handler list \<Rightarrow> 'a \<Rightarrow> 'a result" where
  "removeOutcome em ch hs x = (if hs = [] \<and> \<not> joined em ch then Throw SocketError else Return x)"

lemma removeLoop_result:
  assumes "ev \<noteq> []"
  shows "map_of (listeners em) ev = Some ch \<Longrightarrow> handlers ch = hs \<Longrightarrow> hs \<noteq> [] \<Longrightarrow> i \<le> length hs \<Longrightarrow>
    removeLoop i ev l hs m em =
      (if (\<exists>h \<in> set (take i hs). toString h = toString l)
       then (removeOutcome em ch (filter (\<lambda>h. toString h \<noteq> toString l) (take i hs) @ drop i hs) True,
             afterRemove ev ch (filter (\<lambda>h. toString h \<noteq> toString l) (take i hs) @ drop i hs) em)
       else (Return m, em))"
proof (induction i arbitrary: em ch hs m)
  case 0
  then show ?case by simp
next
  case (Suc i)
  from Suc.prems have i: "i < length hs" by simp
  have tk: "take (Suc i) hs = take i hs @ [hs ! i]" using i by (simp add: take_Suc_conv_app_nth)
  show ?case
  proof (cases "toString (hs ! i) = toString l")
    case False
    have "drop i hs = hs ! i # drop (Suc i) hs" using i by (simp add: Cons_nth_drop_Suc)
    with False Suc.IH[OF Suc.prems(1) Suc.prems(2) Suc.prems(3), of m] i tk show ?thesis
      by simp
  next
    case True
    note match = True
    let ?hs' = "splice1 i hs"
    let ?ch' = "ch\<lparr>handlers := ?hs'\<rparr>"
    let ?em1 = "storeHandlers ev ?hs' em"
    let ?em2 = "?em1\<lparr>events := cachedEvents ev ?em1\<rparr>"
    have em1: "?em1 = em\<lparr>listeners := AList.update ev ?ch' (listeners em)\<rparr>"
      using Suc.prems by (simp add: storeHandlers_def)
    have gp: "getPort ev ?em1 = (Return (the (map_of (cachedEvents ev ?em1) ev)), ?em2)"
      using assms by (rule getPort_eq)
    have ce: "cachedEvents ev ?em1 = cachedEvents ev em"
      by (rule cachedEvents_cong) (simp_all add: em1)
    have len: "length ?hs' = length hs - 1" using i by (simp add: splice1_def)
    have tk': "take i ?hs' = take i hs" using i by (simp add: splice1_def)
    have dr': "drop i ?hs' = drop (Suc i) hs" using i by (simp add: splice1_def)
    have jn: "joined ?em2 ?ch' = joined em ch"
      by (simp add: joined_def em1 getAddress_def)
    show ?thesis
    proof (cases "?hs' = []")
      case True
      with len i have i0: "i = 0" by simp
      have hs1: "length hs = 1" using True len i by (cases hs) auto
      then obtain h where hs: "hs = [h]" by (cases hs) auto
      show ?thesis
      proof (cases "joined em ch")
        case True
        then show ?thesis
          using assms Suc.prems match i0 hs
          by (simp add: getPort_eq storeHandlers_def closeReceiver_def splice1_def joined_def
              afterRemove_def removeOutcome_def closedSocket_def getAddress_def
              AList.update_conv' AList.delete_update_same Let_def)
      next
        case False
        then show ?thesis
          using assms Suc.prems match i0 hs
          by (simp add: getPort_eq storeHandlers_def closeReceiver_def splice1_def joined_def
              afterRemove_def removeOutcome_def getAddress_def AList.update_conv' Let_def)
      qed
    next
      case False
      have le: "i \<le> length ?hs'" using i len by simp
      have m1: "map_of (listeners ?em2) ev = Some ?ch'" by (simp add: em1 AList.update_conv')
      let ?P = "\<lambda>h. toString h = toString l"
      let ?F = "filter (\<lambda>h. toString h \<noteq> toString l) (take i hs) @ drop (Suc i) hs"
      have step: "removeLoop (Suc i) ev l hs m em = removeLoop i ev l ?hs' True ?em2"
        using i match False by (simp add: gp Let_def)
      have IH: "removeLoop i ev l ?hs' True ?em2 =
          (if (\<exists>h \<in> set (take i hs). ?P h)
           then (removeOutcome ?em2 ?ch' ?F True, afterRemove ev ?ch' ?F ?em2)
           else (Return True, ?em2))"
        using Suc.IH[OF m1 _ False le, of True] by (simp add: tk' dr')
      have F: "filter (\<lambda>h. toString h \<noteq> toString l) (take (Suc i) hs) @ drop (Suc i) hs = ?F"
        using match by (simp add: tk)
      have ar: "afterRemove ev ?ch' xs ?em2 = afterRemove ev ch xs em" for xs
        by (simp add: afterRemove_def jn)
           (simp add: em1 ce closedSocket_def getAddress_def AList.delete_update_same)
      have ro: "removeOutcome ?em2 ?ch' xs True = removeOutcome em ch xs True" for xs
        by (simp add: removeOutcome_def jn)
      have nomatch: "?em2 = afterRemove ev ch ?F em \<and> Return True = removeOutcome em ch ?F True"
        if "\<not> (\<exists>h \<in> set (take i hs). ?P h)"
      proof -
        from that have "filter (\<lambda>h. toString h \<noteq> toString l) (take i hs) = take i hs"
          by (simp add: filter_id_conv)
        then have "?F = ?hs'" by (simp add: splice1_def)
        with False show ?thesis by (simp add: afterRemove_def removeOutcome_def em1 ce)
      qed
      have M: "\<exists>h \<in> set (take (Suc i) hs). ?P h" using match by (simp add: tk)
      show ?thesis
      proof (cases "\<exists>h \<in> set (take i hs). ?P h")
        case True
        with M show ?thesis unfolding step IH F by (simp only: if_True ar ro)
      next
        case False
        with M nomatch show ?thesis unfolding step IH F by (simp only: if_True if_False) simp
      qed
    qed
  qed
qed

lemma removeListener_no_event: "removeListener [] l em = (Throw RequiresEventAndListener, em)"
  by (simp add: removeListener_def)

lemma removeListener_idle:
  "ev \<noteq> [] \<Longrightarrow> (case map_of (listeners em) ev of None \<Rightarrow> True | Some ch \<Rightarrow> handlers ch = [])
   \<Longrightarrow> removeListener ev l em = (Return (), em)"
  by (auto simp: removeListener_def hasListeners_def split: option.splits)

lemma removeListener_active:
  assumes "ev \<noteq> []" and "map_of (listeners em) ev = Some ch" and "handlers ch \<noteq> []"
  shows "removeListener ev l em =
    (if (\<exists>h \<in> set (handlers ch). toString h = toString l)
     then (removeOutcome em ch (filter (\<lambda>h. toString h \<noteq> toString l) (handlers ch)) (),
           afterRemove ev ch (filter (\<lambda>h. toString h \<noteq> toString l) (handlers ch)) em)
     else (Return (), em\<lparr>events := cachedEvents ev em\<rparr>))"
  using assms removeLoop_result[OF assms(1) assms(2) refl assms(3) le_refl, of l False]
  by (simp add: removeListener_def hasListeners_def getPort_eq removeOutcome_def)

text \<open>
  The \<^verbatim>\<open>while\<close> loop of \<^verbatim>\<open>removeAllListeners(event)\<close>. Every turn removes the first
  handler and all that have its text, so the number of handlers goes down and the loop
  ends.
\<close>

function removeAllFor :: "string \<Rightarrow> emitter \<Rightarrow> unit result \<times> emitter" where
  "removeAllFor ev em =
     (case hasListeners em ev of
        Throw e \<Rightarrow> (Throw e, em)
      | Return False \<Rightarrow> (Return (), em)
      | Return True \<Rightarrow>
          (case map_of (listeners em) ev of
             None \<Rightarrow> (Throw TypeError, em)
           | Some ch \<Rightarrow>
               (case handlers ch of
                  [] \<Rightarrow> (Throw RequiresEventAndListener, em)
                | h # _ \<Rightarrow>
                    (case removeListener ev h em of
                       (Throw e, em1) \<Rightarrow> (Throw e, em1)
                     | (Return _, em1) \<Rightarrow> removeAllFor ev em1))))"
  by pat_completeness auto

definition handlerCount :: "string \<Rightarrow> emitter \<Rightarrow> nat" where
  "handlerCount ev em = (case map_of (listeners em) ev of None \<Rightarrow> 0 | Some ch \<Rightarrow> length (handlers ch))"

lemma handlerCount_afterRemove:
  "handlerCount ev (afterRemove ev ch hs em) = length hs"
  by (simp add: handlerCount_def afterRemove_def AList.delete_conv' AList.update_conv')

lemma removeListener_first_decreases:
  assumes "hasListeners em ev = Return True" and "map_of (listeners em) ev = Some ch"
    and "handlers ch = h # hs" and "removeListener ev h em = (r, em1)"
  shows "handlerCount ev em1 < handlerCount ev em"
proof -
  from assms(1) have ev: "ev \<noteq> []" by (auto simp: hasListeners_def split: if_splits)
  have "em1 = afterRemove ev ch (filter (\<lambda>x. toString x \<noteq> toString h) (handlers ch)) em"
    using removeListener_active[OF ev assms(2), of h] assms(3,4) by simp
  then have "handlerCount ev em1 = length (filter (\<lambda>x. toString x \<noteq> toString h) hs)"
    using assms(3) by (simp add: handlerCount_afterRemove)
  also have "\<dots> \<le> length hs" by simp
  finally show ?thesis using assms(2,3) by (simp add: handlerCount_def)
qed

termination removeAllFor
  by (relation "measure (\<lambda>(ev, em). handlerCount ev em)")
     (auto intro: removeListener_first_decreases[OF _ _ _ sym])

text \<open>
  \<^verbatim>\<open>removeAllListeners(event)\<close>: with an event, the \<^verbatim>\<open>while\<close> loop above; without one,
  a call of itself for every key of \<^verbatim>\<open>this.listeners\<close>. A key that is the empty string
  would take the second branch again and again until the stack is exhausted.
\<close>

fun removeEach :: "string list \<Rightarrow> emitter \<Rightarrow> unit result \<times> emitter" where
  "removeEach [] em = (Return (), em)"
| "removeEach (k # ks) em =
     (case (if k = [] then (Throw RangeError, em) else removeAllFor k em) of
        (Throw e, em1) \<Rightarrow> (Throw e, em1)
      | (Return _, em1) \<Rightarrow> removeEach ks em1)"

definition removeAllListeners :: "string option \<Rightarrow> emitter \<Rightarrow> unit result \<times> emitter" where
  "removeAllListeners evo em =
     (if truthy_string evo then removeAllFor (the evo) em
      else removeEach (map fst (listeners em)) em)"

text \<open>\<^verbatim>\<open>once(event, listener)\<close> registers the wrapper \<^verbatim>\<open>onceListener\<close>.\<close>

definition once :: "string \<Rightarrow> handler \<Rightarrow> emitter \<Rightarrow> unit result \<times> emitter" where
  "once ev l em = addListener ev (OnceListener ev l) em"

section \<open>Sending and receiving\<close>

definition encrypt :: "env \<Rightarrow> emitter \<Rightarrow> string \<Rightarrow> string result" where
  "encrypt en em message =
     (if cipher em \<noteq> [] \<and> truthy_string (secret em)
      then createCipher en (cipher em) (the (secret em)) message
      else Return message)"

definition decrypt :: "env \<Rightarrow> emitter \<Rightarrow> string \<Rightarrow> string result" where
  "decrypt en em message =
     (if cipher em \<noteq> [] \<and> truthy_string (secret em)
      then createDecipher en (cipher em) (the (secret em)) message
      else Return message)"

text \<open>
  \<^verbatim>\<open>handler.apply(undefined, data)\<close>. A function of the program is opaque: the call is
  recorded, and what the function does to the emitter, if anything, is a call of its
  own. \<^verbatim>\<open>onceListener\<close> is a function of the module: it calls \<^verbatim>\<open>removeListener\<close> with its
  event and itself, and then its listener.
\<close>

fun callHandler :: "handler \<Rightarrow> arg list \<Rightarrow> emitter \<Rightarrow> (handler \<times> arg list) result \<times> emitter" where
  "callHandler (Handler src n) data em = (Return (Handler src n, data), em)"
| "callHandler (OnceListener ev l) data em =
     (case removeListener ev (OnceListener ev l) em of
        (Throw e, em1) \<Rightarrow> (Throw e, em1)
      | (Return _, em1) \<Rightarrow> callHandler l data em1)"

text \<open>
  \<^verbatim>\<open>handlers.forEach(...)\<close> on the array of the entry of \<open>ev\<close>. \<^verbatim>\<open>forEach\<close> reads the length
  once, before the first call (the first argument: the turns left), and skips an index
  that is not in the array any more when its turn comes (\<open>k\<close>: the index). The array
  is the one the entry holds, so it is read from the entry at every turn; an entry that
  a handler has deleted has left its array empty.
\<close>

fun forEachHandler ::
  "nat \<Rightarrow> nat \<Rightarrow> string \<Rightarrow> arg list \<Rightarrow> emitter \<Rightarrow> (handler \<times> arg list) list result \<times> emitter" where
  "forEachHandler 0 k ev data em = (Return [], em)"
| "forEachHandler (Suc n) k ev data em =
     (let hs = (case map_of (listeners em) ev of None \<Rightarrow> [] | Some ch \<Rightarrow> handlers ch)
      in if k < length hs then
           (case callHandler (hs ! k) data em of
              (Throw e, em1) \<Rightarrow> (Throw e, em1)
            | (Return c, em1) \<Rightarrow>
                (case forEachHandler n (Suc k) ev data em1 of
                   (Throw e, em2) \<Rightarrow> (Throw e, em2)
                 | (Return cs, em2) \<Rightarrow> (Return (c # cs), em2)))
         else forEachHandler n (Suc k) ev data em)"

text \<open>
  \<^verbatim>\<open>handleEvent\<close>. The result lists the calls of functions of the program, in the order
  they are made, each with its arguments.
\<close>

definition handleEvent ::
  "env \<Rightarrow> string \<Rightarrow> string \<Rightarrow> emitter \<Rightarrow> (handler \<times> arg list) list result \<times> emitter" where
  "handleEvent en ev msg em =
     (case unpack en msg of
        Throw e \<Rightarrow> (Throw e, em)
      | Return data \<Rightarrow>
          let msgEvent = (case data of [] \<Rightarrow> None | x # _ \<Rightarrow> Some x)
          in if msgEvent \<noteq> Some (AString ev) then (Throw (UnexpectedEvent msgEvent ev), em)
             else (case map_of (listeners em) ev of
                     None \<Rightarrow> (Throw TypeError, em)
                   | Some ch \<Rightarrow> forEachHandler (length (handlers ch)) 0 ev (tl data) em))"

text \<open>
  The head of the message callback: a message that starts with \<open>@\<close> and has a colon
  past index 1 loses the prefix up to the colon, and \<^verbatim>\<open>processMessage\<close> becomes
  \<^verbatim>\<open>process.pid !== pid\<close>. Any other message leaves both as they are.
\<close>

definition filterOrigin :: "env \<Rightarrow> bool \<Rightarrow> string \<Rightarrow> bool \<times> string" where
  "filterOrigin en pm msg =
     (case msg of
        [] \<Rightarrow> (pm, msg)
      | c # _ \<Rightarrow>
          if c = CHR ''@'' then
            (let idx = indexOf msg CHR '':''
             in if idx > 1
                then (parseInt10 (take (nat (idx - 1)) (drop 1 msg)) \<noteq> Some (pid en),
                      drop (nat (idx + 1)) msg)
                else (pm, msg))
          else (pm, msg))"

text \<open>
  The \<^verbatim>\<open>'message'\<close> callback of the receiver of \<open>ev\<close>, run by the event loop with a
  datagram. A receiver that is closed, or whose bind callback has not run, has no such
  callback and delivers nothing. What the callback throws is caught by nobody in the
  module: it reaches the event loop.
\<close>

definition setProcessMessage :: "nat \<Rightarrow> bool \<Rightarrow> emitter \<Rightarrow> emitter" where
  "setProcessMessage r pm em =
     em\<lparr>sockets := (sockets em)[r := (sockets em ! r)\<lparr>sock_processMessage := Some pm\<rparr>]\<rparr>"

definition onMessage ::
  "env \<Rightarrow> string \<Rightarrow> string \<Rightarrow> emitter \<Rightarrow> (handler \<times> arg list) list result \<times> emitter" where
  "onMessage en ev msg em =
     (case map_of (listeners em) ev of
        None \<Rightarrow> (Return [], em)
      | Some ch \<Rightarrow>
          if receiver ch < length (sockets em) \<and> sock_open (sockets em ! receiver ch) then
            (case sock_processMessage (sockets em ! receiver ch) of
               None \<Rightarrow> (Return [], em)
             | Some processMessage \<Rightarrow>
                 (case filterOrigin en processMessage msg of
                    (pm, body) \<Rightarrow>
                      let em1 = setProcessMessage (receiver ch) pm em
                      in if pm
                         then (case decrypt en em1 body of
                                 Throw e \<Rightarrow> (Throw e, em1)
                               | Return plain \<Rightarrow> handleEvent en ev plain em1)
                         else (Return [], em1)))
          else (Return [], em))"

text \<open>
  \<^verbatim>\<open>emit(event, ...)\<close> defers \<^verbatim>\<open>_emit\<close> to the next tick; the model is \<^verbatim>\<open>_emit\<close>. The result
  is the datagram handed to the sender socket: data, port, address.
\<close>

definition emit :: "env \<Rightarrow> string \<Rightarrow> arg list \<Rightarrow> emitter \<Rightarrow> (string \<times> int \<times> string) result \<times> emitter" where
  "emit en ev args em =
     (case encrypt en em (pack en (AString ev # args)) of
        Throw e \<Rightarrow> (Throw e, em)
      | Return encryptedMessage \<Rightarrow>
          let data = (if foreignOnly em
                      then CHR ''@'' # toString10 (pid en) @ CHR '':'' # encryptedMessage
                      else encryptedMessage)
          in (case getPort ev em of
                (Throw e, em1) \<Rightarrow> (Throw e, em1)
              | (Return p, em1) \<Rightarrow> (Return (data, p, getAddress em1), em1)))"

section \<open>What can happen to an emitter\<close>

text \<open>
  The calls of the program on the emitter, and the two things the event loop does to
  it: \<open>Listening r\<close> runs the bind callback of socket \<open>r\<close>, \<open>Message ev msg\<close> hands a
  datagram to the receiver of \<open>ev\<close>. \<open>perform\<close> is the emitter after one of them, whether
  it returns or throws.
\<close>

datatype call =
    AddListener string handler
  | Once string handler
  | RemoveListener string handler
  | RemoveAllListeners "string option"
  | GetPort string
  | Emit string "arg list"
  | Listening nat
  | Message string string

definition perform :: "env \<Rightarrow> call \<Rightarrow> emitter \<Rightarrow> emitter" where
  "perform en c em =
     (case c of
        AddListener ev l \<Rightarrow> snd (addListener ev l em)
      | Once ev l \<Rightarrow> snd (once ev l em)
      | RemoveListener ev l \<Rightarrow> snd (removeListener ev l em)
      | RemoveAllListeners evo \<Rightarrow> snd (removeAllListeners evo em)
      | GetPort ev \<Rightarrow> snd (getPort ev em)
      | Emit ev args \<Rightarrow> snd (emit en ev args em)
      | Listening r \<Rightarrow> snd (onListening r em)
      | Message ev msg \<Rightarrow> snd (onMessage en ev msg em))"

subsection \<open>Properties kept by every call\<close>

text \<open>
  A property kept by \<^verbatim>\<open>addListener\<close>, \<^verbatim>\<open>removeListener\<close>, \<^verbatim>\<open>getPort\<close> and by any change
  of the sockets is kept by every call and by the event loop, the loops of
  \<^verbatim>\<open>removeAllListeners\<close> and of \<^verbatim>\<open>forEach\<close> included.
\<close>

lemma removeAllFor_preserves:
  assumes step: "\<And>ev l em. P em \<Longrightarrow> P (snd (removeListener ev l em))"
  shows "P em \<Longrightarrow> P (snd (removeAllFor ev em))"
proof (induction ev em rule: removeAllFor.induct)
  case (1 ev em)
  show ?case
  proof (cases "hasListeners em ev")
    case (Throw e)
    with "1.prems" show ?thesis by simp
  next
    case (Return b)
    note hl = Return
    show ?thesis
    proof (cases b)
      case False
      with Return "1.prems" show ?thesis by simp
    next
      case True
      show ?thesis
      proof (cases "map_of (listeners em) ev")
        case None
        with Return True "1.prems" show ?thesis by simp
      next
        case (Some ch)
        show ?thesis
        proof (cases "handlers ch")
          case Nil
          with Return True Some "1.prems" show ?thesis by simp
        next
          case (Cons h hs)
          obtain r em1 where rl: "removeListener ev h em = (r, em1)"
            by (cases "removeListener ev h em") auto
          have P1: "P em1" using step[OF "1.prems", of ev h] rl by simp
          show ?thesis
          proof (cases r)
            case (Throw e)
            with Return True Some Cons rl P1 show ?thesis by simp
          next
            case (Return u)
            have "P (snd (removeAllFor ev em1))"
              using "1.IH"[OF hl _ Some Cons rl[symmetric] Return P1] True by simp
            with hl True Some Cons rl Return show ?thesis by simp
          qed
        qed
      qed
    qed
  qed
qed

lemma removeEach_preserves:
  assumes step: "\<And>ev l em. P em \<Longrightarrow> P (snd (removeListener ev l em))"
  shows "P em \<Longrightarrow> P (snd (removeEach ks em))"
proof (induction ks arbitrary: em)
  case Nil
  then show ?case by simp
next
  case (Cons k ks)
  show ?case
  proof (cases "k = []")
    case True
    with Cons.prems show ?thesis by simp
  next
    case False
    obtain r em1 where ra: "removeAllFor k em = (r, em1)" by (cases "removeAllFor k em") auto
    have "P em1" using removeAllFor_preserves[of P, OF step Cons.prems, of k] ra by simp
    with Cons.IH[of em1] False ra show ?thesis by (cases r) auto
  qed
qed

lemma callHandler_preserves:
  assumes step: "\<And>ev l em. P em \<Longrightarrow> P (snd (removeListener ev l em))"
  shows "P em \<Longrightarrow> P (snd (callHandler h data em))"
proof (induction h arbitrary: em)
  case (Handler src n)
  then show ?case by simp
next
  case (OnceListener ev l)
  obtain r em1 where rl: "removeListener ev (OnceListener ev l) em = (r, em1)"
    by (cases "removeListener ev (OnceListener ev l) em") auto
  have P1: "P em1" using step[OF OnceListener.prems, of ev "OnceListener ev l"] rl by simp
  show ?case using rl P1 OnceListener.IH[OF P1] by (cases r) simp_all
qed

lemma forEachHandler_preserves:
  assumes step: "\<And>ev l em. P em \<Longrightarrow> P (snd (removeListener ev l em))"
  shows "P em \<Longrightarrow> P (snd (forEachHandler n k ev data em))"
proof (induction n arbitrary: k em)
  case 0
  then show ?case by simp
next
  case (Suc n)
  let ?hs = "case map_of (listeners em) ev of None \<Rightarrow> [] | Some ch \<Rightarrow> handlers ch"
  show ?case
  proof (cases "k < length ?hs")
    case False
    with Suc.IH[OF Suc.prems, of "Suc k"] show ?thesis by (simp add: Let_def)
  next
    case True
    obtain r em1 where ch: "callHandler (?hs ! k) data em = (r, em1)"
      by (cases "callHandler (?hs ! k) data em") auto
    have P1: "P em1" using callHandler_preserves[of P, OF step Suc.prems, of "?hs ! k" data] ch by simp
    show ?thesis
    proof (cases r)
      case (Throw e)
      with True ch P1 show ?thesis by (simp add: Let_def)
    next
      case (Return c)
      obtain r2 em2 where fe: "forEachHandler n (Suc k) ev data em1 = (r2, em2)"
        by (cases "forEachHandler n (Suc k) ev data em1") auto
      have "P em2" using Suc.IH[OF P1, of "Suc k"] fe by simp
      with True ch Return fe show ?thesis by (cases r2) (simp_all add: Let_def)
    qed
  qed
qed

lemma onMessage_preserves:
  assumes rem: "\<And>ev l em. P em \<Longrightarrow> P (snd (removeListener ev l em))"
    and sock: "\<And>S em. P em \<Longrightarrow> P (em\<lparr>sockets := S\<rparr>)"
  shows "P em \<Longrightarrow> P (snd (onMessage en ev msg em))"
proof -
  assume P: "P em"
  have s: "P (setProcessMessage r pm em)" for r pm
    unfolding setProcessMessage_def using P by (rule sock)
  have h: "P (snd (handleEvent en ev plain (setProcessMessage r pm em)))" for r pm plain
    using forEachHandler_preserves[of P, OF rem s] s
    by (auto simp: handleEvent_def Let_def split: result.splits option.splits)
  show ?thesis
    using P s h
    by (auto simp: onMessage_def Let_def split: option.splits prod.splits result.splits)
qed

lemma onListening_preserves:
  assumes port: "\<And>ev em. P em \<Longrightarrow> P (snd (getPort ev em))"
    and sock: "\<And>S em. P em \<Longrightarrow> P (em\<lparr>sockets := S\<rparr>)"
  shows "P em \<Longrightarrow> P (snd (onListening r em))"
proof -
  assume P: "P em"
  have g: "P (snd (getPort ev (em\<lparr>sockets := S\<rparr>)))" for ev S
    using port[OF sock[OF P]] .
  show ?thesis
  proof (cases "r < length (sockets em) \<and> sock_open (sockets em ! r)")
    case False
    with P show ?thesis by (auto simp: onListening_def split: option.splits)
  next
    case True
    show ?thesis
    proof (cases "sock_onListening (sockets em ! r)")
      case None
      with P True show ?thesis by (simp add: onListening_def)
    next
      case (Some ev)
      let ?em1 = "em\<lparr>sockets := (sockets em)[r := listeningSocket em (sockets em ! r)]\<rparr>"
      have "snd (onListening r em) = snd (getPort ev ?em1)"
        using True Some
        by (simp add: onListening_def Let_def listeningSocket_def split: prod.splits result.splits)
      with g[of ev] show ?thesis by simp
    qed
  qed
qed

lemma perform_preserves:
  assumes add: "\<And>ev l em. P em \<Longrightarrow> P (snd (addListener ev l em))"
    and rem: "\<And>ev l em. P em \<Longrightarrow> P (snd (removeListener ev l em))"
    and port: "\<And>ev em. P em \<Longrightarrow> P (snd (getPort ev em))"
    and sock: "\<And>S em. P em \<Longrightarrow> P (em\<lparr>sockets := S\<rparr>)"
  shows "P em \<Longrightarrow> P (perform en c em)"
proof (cases c)
  case (AddListener ev l)
  assume "P em" with AddListener add show ?thesis by (simp add: perform_def)
next
  case (Once ev l)
  assume "P em" with Once add show ?thesis by (simp add: perform_def once_def)
next
  case (RemoveListener ev l)
  assume "P em" with RemoveListener rem show ?thesis by (simp add: perform_def)
next
  case (RemoveAllListeners evo)
  assume "P em" with RemoveAllListeners removeAllFor_preserves[of P, OF rem] removeEach_preserves[of P, OF rem]
  show ?thesis by (simp add: perform_def removeAllListeners_def)
next
  case (GetPort ev)
  assume "P em" with GetPort port show ?thesis by (simp add: perform_def)
next
  case (Emit ev args)
  assume "P em" with Emit port[of em ev] show ?thesis
    by (auto simp: perform_def emit_def Let_def split: result.splits prod.splits)
next
  case (Listening r)
  assume "P em" with Listening onListening_preserves[of P, OF port sock] show ?thesis
    by (simp add: perform_def)
next
  case (Message ev m)
  assume "P em" with Message onMessage_preserves[of P, OF rem sock] show ?thesis
    by (simp add: perform_def)
qed

subsection \<open>The table of ports only grows\<close>

text \<open>Nothing that happens to an emitter removes or changes an entry of \<^verbatim>\<open>this.events\<close>.\<close>

lemma cachedEvents_keeps:
  "map_of (events em) k = Some q \<Longrightarrow> map_of (cachedEvents ev em) k = Some q"
  by (auto simp: cachedEvents_def map_add_def split: option.splits)

lemma events_afterRemove: "events (afterRemove ev ch hs em) = cachedEvents ev em"
  by (simp add: afterRemove_def)

lemma addListener_keeps:
  assumes "map_of (events em) k = Some q"
  shows "map_of (events (snd (addListener ev l em))) k = Some q"
proof (cases "ev = []")
  case True
  with assms show ?thesis by (simp add: addListener_no_event)
next
  case False
  show ?thesis
  proof (cases "map_of (listeners em) ev")
    case None
    with assms False show ?thesis by (simp add: addListener_fresh cachedEvents_keeps)
  next
    case (Some ch)
    with assms False show ?thesis by (simp add: addListener_known cachedEvents_keeps)
  qed
qed

lemma removeListener_keeps:
  assumes "map_of (events em) k = Some q"
  shows "map_of (events (snd (removeListener ev l em))) k = Some q"
proof (cases "ev = []")
  case True
  with assms show ?thesis by (simp add: removeListener_no_event)
next
  case False
  show ?thesis
  proof (cases "map_of (listeners em) ev")
    case None
    with assms False show ?thesis by (simp add: removeListener_idle)
  next
    case (Some ch)
    show ?thesis
    proof (cases "handlers ch = []")
      case True
      with assms False Some show ?thesis by (simp add: removeListener_idle)
    next
      case ne: False
      show ?thesis
        using assms by (simp add: removeListener_active[OF False Some ne] events_afterRemove cachedEvents_keeps)
    qed
  qed
qed

lemma getPort_keeps:
  "map_of (events em) k = Some q \<Longrightarrow> map_of (events (snd (getPort ev em))) k = Some q"
  by (cases "ev = []") (simp_all add: getPort_eq cachedEvents_keeps, simp add: getPort_def)

lemma perform_keeps:
  "map_of (events em) k = Some q \<Longrightarrow> map_of (events (perform en c em)) k = Some q"
  by (rule perform_preserves[where P = "\<lambda>em. map_of (events em) k = Some q"])
     (simp_all add: addListener_keeps removeListener_keeps getPort_keeps)

section \<open>What the message callback does\<close>

text \<open>
  A tag is what stands between a leading \<open>@\<close> and the first colon. A datagram with a
  non-empty tag loses the tag, and \<^verbatim>\<open>processMessage\<close> says whether the tag, read as a
  number, differs from the pid of the receiving process. A datagram that does not start
  with \<open>@\<close> is left as it is, and so is \<^verbatim>\<open>processMessage\<close>.
\<close>

lemma indexOf_first: "c \<notin> set xs \<Longrightarrow> indexOf (xs @ c # ys) c = int (length xs)"
  by (induction xs) (auto simp: Let_def)

lemma filterOrigin_tagged:
  assumes "tag \<noteq> []" and "CHR '':'' \<notin> set tag"
  shows "filterOrigin en pm (CHR ''@'' # tag @ CHR '':'' # rest) =
           (parseInt10 tag \<noteq> Some (pid en), rest)"
proof -
  have "indexOf ((CHR ''@'' # tag) @ CHR '':'' # rest) CHR '':'' = int (length (CHR ''@'' # tag))"
    using assms(2) by (intro indexOf_first) simp
  then have i: "indexOf (CHR ''@'' # tag @ CHR '':'' # rest) CHR '':'' = int (length tag) + 1"
    by simp
  have g: "int (length tag) + 1 > 1" using assms(1) by simp
  have a: "nat (int (length tag) + 1 - 1) = length tag" by simp
  have b: "nat (int (length tag) + 1 + 1) = Suc (Suc (length tag))" by simp
  show ?thesis
    unfolding filterOrigin_def list.case i Let_def a b using g by simp
qed


text \<open>
  A channel is bound when its receiver is an open socket whose bind callback has run,
  so that the \<^verbatim>\<open>'message'\<close> callback is there; \<open>pm\<close> is the value of \<^verbatim>\<open>processMessage\<close>.
\<close>

definition bound :: "emitter \<Rightarrow> channel \<Rightarrow> bool \<Rightarrow> bool" where
  "bound em ch pm =
     (receiver ch < length (sockets em) \<and> sock_open (sockets em ! receiver ch)
      \<and> sock_processMessage (sockets em ! receiver ch) = Some pm)"

lemma decrypt_setProcessMessage [simp]:
  "decrypt en (setProcessMessage r pm em) = decrypt en em"
  by (rule ext) (simp add: decrypt_def setProcessMessage_def)

lemma listeners_setProcessMessage [simp]:
  "listeners (setProcessMessage r pm em) = listeners em"
  by (simp add: setProcessMessage_def)

lemma events_setProcessMessage [simp]:
  "events (setProcessMessage r pm em) = events em"
  by (simp add: setProcessMessage_def)

lemma setProcessMessage_same:
  "bound em ch pm \<Longrightarrow> setProcessMessage (receiver ch) pm em = em"
  by (simp add: bound_def setProcessMessage_def list_update_same_conv)

lemma setProcessMessage_again [simp]:
  "setProcessMessage r pm' (setProcessMessage r pm em) = setProcessMessage r pm' em"
  by (cases "r < length (sockets em)") (simp_all add: setProcessMessage_def list_update_beyond)

lemma bound_setProcessMessage:
  "bound em ch pm \<Longrightarrow> bound (setProcessMessage (receiver ch) pm' em) ch pm'"
  by (simp add: bound_def setProcessMessage_def)

lemma onMessage_dropped:
  assumes "map_of (listeners em) ev = Some ch" and "bound em ch pm"
    and "filterOrigin en pm msg = (False, body)"
  shows "onMessage en ev msg em = (Return [], setProcessMessage (receiver ch) False em)"
  using assms by (simp add: onMessage_def bound_def)

lemma onMessage_processed:
  assumes "map_of (listeners em) ev = Some ch" and "bound em ch pm"
    and "filterOrigin en pm msg = (True, body)"
  shows "onMessage en ev msg em =
    (case decrypt en em body of
       Throw e \<Rightarrow> (Throw e, setProcessMessage (receiver ch) True em)
     | Return plain \<Rightarrow> handleEvent en ev plain (setProcessMessage (receiver ch) True em))"
  using assms by (simp add: onMessage_def bound_def Let_def split: result.splits)

text \<open>
  \<open>plain\<close>: a listener that is a function of the program, not a wrapper made by
  \<^verbatim>\<open>once\<close>. When all handlers of the event are plain, \<^verbatim>\<open>forEach\<close> calls each of them, in
  the order of the array, and the emitter is as before.
\<close>

fun plain :: "handler \<Rightarrow> bool" where
  "plain (Handler src n) = True"
| "plain (OnceListener ev l) = False"

lemma callHandler_plain: "plain h \<Longrightarrow> callHandler h data em = (Return (h, data), em)"
  by (cases h) simp_all

lemma forEachHandler_plain:
  assumes "map_of (listeners em) ev = Some ch" and "list_all plain (handlers ch)"
  shows "k + n = length (handlers ch) \<Longrightarrow>
    forEachHandler n k ev data em = (Return (map (\<lambda>h. (h, data)) (drop k (handlers ch))), em)"
proof (induction n arbitrary: k)
  case 0
  then show ?case by simp
next
  case (Suc n)
  from Suc.prems have k: "k < length (handlers ch)" by simp
  have p: "plain (handlers ch ! k)" using assms(2) k by (simp add: list_all_length)
  have d: "drop k (handlers ch) = handlers ch ! k # drop (Suc k) (handlers ch)"
    using k by (simp add: Cons_nth_drop_Suc)
  have IH: "forEachHandler n (Suc k) ev data em =
      (Return (map (\<lambda>h. (h, data)) (drop (Suc k) (handlers ch))), em)"
    using Suc.IH[of "Suc k"] Suc.prems by simp
  show ?case
    using k assms(1) by (simp add: callHandler_plain[OF p] IH d Let_def)
qed

lemma handleEvent_match:
  assumes "map_of (listeners em) ev = Some ch" and "list_all plain (handlers ch)"
    and "unpack en msg = Return (AString ev # args)"
  shows "handleEvent en ev msg em = (Return (map (\<lambda>h. (h, args)) (handlers ch)), em)"
  using assms forEachHandler_plain[OF assms(1,2), of 0 "length (handlers ch)" args]
  by (simp add: handleEvent_def)

lemma handleEvent_mismatch:
  assumes "unpack en msg = Return data" and "data = [] \<or> hd data \<noteq> AString ev"
  shows "handleEvent en ev msg em =
    (Throw (UnexpectedEvent (case data of [] \<Rightarrow> None | x # _ \<Rightarrow> Some x) ev), em)"
  using assms by (cases data) (auto simp: handleEvent_def)

text \<open>
  The tag \<^verbatim>\<open>_emit\<close> writes is read back as the pid that wrote it: \<^verbatim>\<open>parseInt\<close> undoes
  \<^verbatim>\<open>toString\<close> on a number that is not negative.
\<close>

declare decimal.simps [simp del]
declare skip_white_space.simps [simp del]

lemma digit_char_props:
  assumes "0 \<le> d" and "d < 10"
  shows "isDigit (digit_char d) \<and> of_char (digit_char d) - 48 = d"
proof -
  from assms have "d = 0 \<or> d = 1 \<or> d = 2 \<or> d = 3 \<or> d = 4 \<or> d = 5 \<or> d = 6 \<or> d = 7 \<or> d = 8 \<or> d = 9"
    by arith
  then show ?thesis
    by (elim disjE) (simp_all add: digit_char_def isDigit_def)
qed

lemma digits_value_snoc:
  "digits_value acc (xs @ [c]) = 10 * digits_value acc xs + (of_char c - 48)"
  by (induction xs arbitrary: acc) simp_all

lemma decimal_props:
  "0 \<le> n \<Longrightarrow> decimal n \<noteq> [] \<and> list_all isDigit (decimal n) \<and> digits_value 0 (decimal n) = n"
proof (induction n rule: decimal.induct)
  case (1 n)
  show ?case
  proof (cases "n < 10")
    case True
    have d: "decimal n = [digit_char n]" using True by (subst decimal.simps) simp
    show ?thesis unfolding d using "1.prems" True digit_char_props[of n] by simp
  next
    case False
    have d: "decimal n = decimal (n div 10) @ [digit_char (n mod 10)]"
      using False by (subst decimal.simps) simp
    have IH: "decimal (n div 10) \<noteq> [] \<and> list_all isDigit (decimal (n div 10))
        \<and> digits_value 0 (decimal (n div 10)) = n div 10"
      using "1.IH"[OF False] "1.prems" by simp
    have m: "isDigit (digit_char (n mod 10)) \<and> of_char (digit_char (n mod 10)) - 48 = n mod 10"
      by (rule digit_char_props) simp_all
    show ?thesis unfolding d digits_value_snoc using IH m by simp
  qed
qed

lemma strip_prefix_hd: "p \<noteq> [] \<Longrightarrow> hd p \<noteq> c \<Longrightarrow> strip_prefix p (c # cs) = None"
  by (cases p) auto

lemma strip_any_hd: "list_all (\<lambda>p. p \<noteq> [] \<and> hd p \<noteq> c) ps \<Longrightarrow> strip_any ps (c # cs) = None"
  by (induction ps) (simp_all add: strip_prefix_hd)

lemma white_space_no_digit: "list_all (\<lambda>p. p \<noteq> [] \<and> \<not> isDigit (hd p)) white_space"
  by (simp add: white_space_def isDigit_def)

lemma strip_white_space_digit:
  assumes "isDigit c"
  shows "strip_any white_space (c # cs) = None"
proof -
  have "list_all (\<lambda>p. p \<noteq> [] \<and> hd p \<noteq> c) white_space"
    using white_space_no_digit assms by (auto simp: list_all_iff)
  then show ?thesis by (rule strip_any_hd)
qed

lemma parseInt10_decimal:
  assumes "0 \<le> n"
  shows "parseInt10 (decimal n) = Some n"
proof -
  from decimal_props[OF assms] obtain c cs where d: "decimal n = c # cs"
    and all: "list_all isDigit (c # cs)" and v: "digits_value 0 (c # cs) = n"
    by (cases "decimal n") auto
  from all have c: "isDigit c" by simp
  then have s: "skip_white_space (c # cs) = c # cs"
    by (subst skip_white_space.simps) (simp add: strip_white_space_digit)
  have sign: "c \<noteq> CHR ''-''" "c \<noteq> CHR ''+''" using c by (auto simp: isDigit_def)
  have tw: "takeWhile isDigit (c # cs) = c # cs" using all by (simp add: takeWhile_eq_all_conv list_all_iff)
  show ?thesis
    unfolding parseInt10_def d s Let_def using sign tw v by simp
qed

lemma decimal_no_colon: "0 \<le> n \<Longrightarrow> CHR '':'' \<notin> set (decimal n)"
  using decimal_props[of n] by (auto simp: list_all_iff isDigit_def)

lemma own_tag_round_trip:
  assumes "0 \<le> pid en"
  shows "filterOrigin en' pm (CHR ''@'' # toString10 (pid en) @ CHR '':'' # body) = (pid en \<noteq> pid en', body)"
proof -
  have t: "toString10 (pid en) = decimal (pid en)" using assms by (simp add: toString10_def)
  have "filterOrigin en' pm (CHR ''@'' # decimal (pid en) @ CHR '':'' # body) =
      (parseInt10 (decimal (pid en)) \<noteq> Some (pid en'), body)"
    using decimal_props[OF assms] decimal_no_colon[OF assms] by (intro filterOrigin_tagged) simp_all
  then show ?thesis by (simp add: t parseInt10_decimal[OF assms])
qed

text \<open>
  Two emitters in foreign-only mode. What one of them emits is dropped by a bound
  channel of a process with the same pid, its own included, and is handled by a bound
  channel of any other process that has the same cipher and secret.
\<close>

lemma foreign_only_emission:
  assumes fo: "foreignOnly em" and pid: "0 \<le> pid en"
    and em: "emit en ev args em = (Return (data, p, a), em1)"
    and ch: "map_of (listeners rx) ev = Some ch" and b: "bound rx ch pm"
  shows "pid en' = pid en \<longrightarrow>
           onMessage en' ev data rx = (Return [], setProcessMessage (receiver ch) False rx)"
    and "pid en' \<noteq> pid en \<and> cipher rx = cipher em \<and> secret rx = secret em
         \<and> (\<forall>m c. encrypt en em m = Return c \<longrightarrow> decrypt en' em c = Return m)
         \<and> unpack en' (pack en (AString ev # args)) = Return (AString ev # args)
         \<and> list_all plain (handlers ch)
       \<longrightarrow> onMessage en' ev data rx =
             (Return (map (\<lambda>h. (h, args)) (handlers ch)), setProcessMessage (receiver ch) True rx)"
proof -
  obtain enc where enc: "encrypt en em (pack en (AString ev # args)) = Return enc"
    and data: "data = CHR ''@'' # toString10 (pid en) @ CHR '':'' # enc"
    using em fo by (auto simp: emit_def Let_def split: result.splits prod.splits)
  have f: "filterOrigin en' pm data = (pid en \<noteq> pid en', enc)"
    unfolding data using pid by (rule own_tag_round_trip)
  show "pid en' = pid en \<longrightarrow>
           onMessage en' ev data rx = (Return [], setProcessMessage (receiver ch) False rx)"
    using onMessage_dropped[OF ch b, of en' data enc] f by simp
  show "pid en' \<noteq> pid en \<and> cipher rx = cipher em \<and> secret rx = secret em
         \<and> (\<forall>m c. encrypt en em m = Return c \<longrightarrow> decrypt en' em c = Return m)
         \<and> unpack en' (pack en (AString ev # args)) = Return (AString ev # args)
         \<and> list_all plain (handlers ch)
       \<longrightarrow> onMessage en' ev data rx =
             (Return (map (\<lambda>h. (h, args)) (handlers ch)), setProcessMessage (receiver ch) True rx)"
  proof (intro impI, elim conjE)
    assume ne: "pid en' \<noteq> pid en" and c: "cipher rx = cipher em" and s: "secret rx = secret em"
      and rt: "\<forall>m c. encrypt en em m = Return c \<longrightarrow> decrypt en' em c = Return m"
      and u: "unpack en' (pack en (AString ev # args)) = Return (AString ev # args)"
      and pl: "list_all plain (handlers ch)"
    have "decrypt en' rx enc = decrypt en' em enc" using c s by (simp add: decrypt_def)
    with rt enc have d: "decrypt en' rx enc = Return (pack en (AString ev # args))" by simp
    from ne f have f': "filterOrigin en' pm data = (True, enc)" by auto
    have m': "map_of (listeners (setProcessMessage (receiver ch) True rx)) ev = Some ch"
      using ch by simp
    show "onMessage en' ev data rx =
        (Return (map (\<lambda>h. (h, args)) (handlers ch)), setProcessMessage (receiver ch) True rx)"
      using onMessage_processed[OF ch b f'] d handleEvent_match[OF m' pl u] by simp
  qed
qed

section \<open>The model on known values\<close>

text \<open>
  Stand-ins for the process and the libraries, used only to run the model on concrete
  inputs: a codec that ends every string argument with a zero byte, and a cipher that
  reverses the message and appends the secret.
\<close>

fun split_zero :: "string \<Rightarrow> string \<Rightarrow> string list" where
  "split_zero acc [] = []"
| "split_zero acc (c # cs) = (if c = CHR 0x00 then rev acc # split_zero [] cs else split_zero (c # acc) cs)"

definition demo_pack :: "arg list \<Rightarrow> string" where
  "demo_pack args = concat (map (\<lambda>a. (case a of AString s \<Rightarrow> s | _ \<Rightarrow> []) @ [CHR 0x00]) args)"

definition demo_unpack :: "string \<Rightarrow> arg list result" where
  "demo_unpack b = Return (map AString (split_zero [] b))"

definition demo_cipher :: "string \<Rightarrow> string \<Rightarrow> string \<Rightarrow> string result" where
  "demo_cipher c k m = (if c = ''aes256'' then Return (rev m @ k) else Throw LibraryError)"

definition demo_decipher :: "string \<Rightarrow> string \<Rightarrow> string \<Rightarrow> string result" where
  "demo_decipher c k m =
     (if c = ''aes256'' \<and> length k \<le> length m \<and> drop (length m - length k) m = k
      then Return (rev (take (length m - length k) m)) else Throw LibraryError)"

definition demo_env :: env where
  "demo_env = \<lparr>pid = 4242,
     networkInterfaces = [[(''127.0.0.1'', True)], [(''192.168.2.37'', False)]],
     createCipher = demo_cipher, createDecipher = demo_decipher,
     pack = demo_pack, unpack = demo_unpack\<rparr>"

definition default_emitter :: "int \<Rightarrow> emitter" where
  "default_emitter counter =
     \<lparr>name = ''emitter #'' @ toString10 counter, app_id = ''default'', secret = None, cipher = ''aes256'',
      ttl = 64, interface = None, loopback = True, foreignOnly = False, octet = 239,
      base_port = 1967, group_id = ''events'', address = ''239.22.144.139'', events = [],
      listeners = [],
      sockets = [\<lparr>sock_open = True, sock_bound = None, sock_ttl = Some 64,
                  sock_loopback = Some True, sock_membership = [],
                  sock_onListening = None, sock_processMessage = None\<rparr>],
      sender = 0\<rparr>"

text \<open>
  The digest has sixteen bytes, each in \<open>[0, 255]\<close>; the first two values are from the
  test suite of RFC 1321.
\<close>

lemma md5_length: "length (md5 s) = 16"
  by (simp add: md5_def md5_bytes_def le_bytes4_def split: prod.splits)

lemma byte_le: "(x::int) mod 256 \<le> 255"
  using pos_mod_bound[of 256 x] by simp

lemma toString10_239: "toString10 239 = ''239''"
  by code_simp

lemma md5_byte_range: "i < 16 \<Longrightarrow> 0 \<le> md5 s ! i \<and> md5 s ! i \<le> 255"
proof -
  assume i: "i < 16"
  obtain a b c d where st: "md5_blocks (0x67452301, 0xefcdab89, 0x98badcfe, 0x10325476) (md5_pad (map of_char s)) = (a, b, c, d)"
    by (cases "md5_blocks (0x67452301, 0xefcdab89, 0x98badcfe, 0x10325476) (md5_pad (map of_char s))") auto
  have all: "list_all (\<lambda>x. 0 \<le> x \<and> x \<le> 255) (md5 s)"
    by (simp add: md5_def md5_bytes_def st le_bytes4_def byte_le)
  have "length (md5 s) = 16" by (rule md5_length)
  with i all show ?thesis by (simp add: list_all_length)
qed

lemma md5_empty: "md5 [] = [0xd4, 0x1d, 0x8c, 0xd9, 0x8f, 0x00, 0xb2, 0x04, 0xe9, 0x80, 0x09, 0x98, 0xec, 0xf8, 0x42, 0x7e]"
  by code_simp

lemma md5_abc: "md5 ''abc'' = [0x90, 0x01, 0x50, 0x98, 0x3c, 0xd2, 0x4f, 0xb0, 0xd6, 0x96, 0x3f, 0x7d, 0x28, 0xe1, 0x7f, 0x72]"
  by code_simp

lemma md5_qc: "md5 ''qc'' = [0x93, 0x00, 0xc9, 0x6a, 0xae, 0xc3, 0x24, 0x98, 0x7e, 0xa5, 0xca, 0x6e, 0x13, 0xa0, 0x2e, 0xda]"
  by code_simp

lemma x239_matches: "isMulticastAddress ''x239.1.1.1''"
  by code_simp

lemma x239_not_valid: "\<not> valid_multicast_address ''x239.1.1.1''"
  by code_simp

lemma qc_not_multicast: "\<not> isMulticastAddress ''qc''"
  by code_simp

lemma derive_qc: "derive_address 239 ''qc'' = ''239.147.0.201''"
  by code_simp


text \<open>
  The log printed in the documentation of the module: an emitter without options has the
  group address \<^verbatim>\<open>239.22.144.139\<close> and listens for \<^verbatim>\<open>event-name\<close> at port \<^verbatim>\<open>30618\<close>.
\<close>

lemma derive_events: "derive_address 239 ''events'' = ''239.22.144.139''"
  by code_simp

lemma events_not_multicast: "\<not> isMulticastAddress ''events''"
  by code_simp

lemma default_emitter_constructed: "EventEmitter en counter no_opts = Return (default_emitter counter)"
  by (simp add: EventEmitter_def no_opts_def or_string_def or_number_def
      truthy_string_def ttlMin_def ttlMax_def octetMin_def octetMax_def portMin_def portMax_def
      default_emitter_def derive_events)

lemma port_event_name: "generatePort (default_emitter counter) ''event-name'' = 30618"
proof -
  have "md5 ''default::events::event-name'' =
      [0xe6, 0x1e, 0x3f, 0x65, 0x7f, 0xb8, 0xa6, 0x21, 0x98, 0xfd, 0x6b, 0x47, 0x0c, 0xe5, 0xef, 0xeb]"
    by code_simp
  then show ?thesis by (simp add: generatePort_def default_emitter_def)
qed

lemma constructor_errors: "EventEmitter en counter opts = Throw e \<Longrightarrow> is_ConfigError e"
  by (auto simp: EventEmitter_def Let_def is_ConfigError_def split: if_splits)

lemma ttl_256_rejected: "EventEmitter en counter (opts\<lparr>opt_ttl := Some 256\<rparr>) = Throw TtlError"
  by (simp add: EventEmitter_def or_number_def ttlMin_def ttlMax_def)

lemma ttl_negative_rejected: "t < 0 \<Longrightarrow> EventEmitter en counter (opts\<lparr>opt_ttl := Some t\<rparr>) = Throw TtlError"
  by (simp add: EventEmitter_def or_number_def ttlMin_def ttlMax_def)

lemma foreignOnly_without_loopback_rejected:
  "opt_foreignOnly opts = Some True \<Longrightarrow> opt_loopback opts = Some False \<Longrightarrow>
   \<exists>e. EventEmitter en counter opts = Throw e \<and> is_ConfigError e"
  by (auto simp: EventEmitter_def Let_def is_ConfigError_def)

lemma constructed_address:
  "EventEmitter en counter opts = Return em \<Longrightarrow> address em = derive_address (octet em) (group_id em)"
  by (auto simp: EventEmitter_def Let_def split: if_splits)

text \<open>
  An emitter whose table of ports gives the events \<^verbatim>\<open>a\<close> and \<^verbatim>\<open>b\<close> the same port, two
  listeners that are different functions with the same text, and the emitter after
  \<^verbatim>\<open>on('a', handler_a)\<close> and after a second \<^verbatim>\<open>on('a', handler_b)\<close>.
\<close>

definition collision_emitter :: emitter where
  "collision_emitter = (default_emitter 0)\<lparr>events := [(''a'', 5000), (''b'', 5000)]\<rparr>"

lemma collision_emitter_constructed:
  "EventEmitter en 0 (no_opts\<lparr>opt_events := Some [(''a'', 5000), (''b'', 5000)]\<rparr>) = Return collision_emitter"
  by (simp add: EventEmitter_def no_opts_def or_string_def or_number_def
      truthy_string_def ttlMin_def ttlMax_def octetMin_def octetMax_def portMin_def portMax_def
      default_emitter_def derive_events collision_emitter_def Let_def)

definition handler_a :: handler where
  "handler_a = Handler ''function (data) { console.log(data); }'' 1"

definition handler_b :: handler where
  "handler_b = Handler ''function (data) { console.log(data); }'' 2"

definition listening_a :: emitter where
  "listening_a = snd (addListener ''a'' handler_a collision_emitter)"

lemma listening_a_eq:
  "listening_a = collision_emitter
     \<lparr>listeners := [(''a'', \<lparr>receiver = 1, handlers = [handler_a]\<rparr>)],
      sockets := sockets collision_emitter @
        [\<lparr>sock_open = True, sock_bound = Some (5000, ''239.22.144.139''), sock_ttl = None,
          sock_loopback = None, sock_membership = [],
          sock_onListening = Some ''a'', sock_processMessage = None\<rparr>]\<rparr>"
  by (simp add: listening_a_def addListener_fresh collision_emitter_def default_emitter_def
      cachedEvents_def newReceiver_def getAddress_def)

definition twice_a :: emitter where
  "twice_a = snd (addListener ''a'' handler_b listening_a)"

lemma twice_a_eq:
  "twice_a = listening_a
     \<lparr>listeners := [(''a'', \<lparr>receiver = 1, handlers = [handler_a, handler_b]\<rparr>)]\<rparr>"
  by (simp add: twice_a_def listening_a_eq addListener_known collides_def hasEventWithPort_def
      truthy_string_def truthy_number_def collision_emitter_def default_emitter_def cachedEvents_def)

lemma fresh_event_is_never_refused:
  "ev \<noteq> [] \<Longrightarrow> map_of (listeners em) ev = None \<Longrightarrow> fst (addListener ev l em) = Return ()"
  by (simp add: addListener_fresh)

text \<open>
  The same emitters once the event loop has run the bind callback of the receiver of
  \<^verbatim>\<open>a\<close>, socket 1: the receiver has its TTL, is a member of the group and has its
  \<^verbatim>\<open>'message'\<close> callback.
\<close>

definition bound_a :: emitter where
  "bound_a = snd (onListening 1 listening_a)"

definition joined_socket :: socket where
  "joined_socket =
     \<lparr>sock_open = True, sock_bound = Some (5000, ''239.22.144.139''), sock_ttl = Some 64,
      sock_loopback = Some True, sock_membership = [(''239.22.144.139'', None)],
      sock_onListening = None, sock_processMessage = Some True\<rparr>"

lemma bound_a_eq:
  "bound_a = collision_emitter
     \<lparr>listeners := [(''a'', \<lparr>receiver = 1, handlers = [handler_a]\<rparr>)],
      sockets := sockets collision_emitter @ [joined_socket]\<rparr>"
  by (simp add: bound_a_def listening_a_eq onListening_pending listeningSocket_def joined_socket_def
      collision_emitter_def default_emitter_def cachedEvents_def getAddress_def)

definition bound_twice_a :: emitter where
  "bound_twice_a = snd (onListening 1 twice_a)"

lemma bound_twice_a_eq:
  "bound_twice_a = collision_emitter
     \<lparr>listeners := [(''a'', \<lparr>receiver = 1, handlers = [handler_a, handler_b]\<rparr>)],
      sockets := sockets collision_emitter @ [joined_socket]\<rparr>"
  by (simp add: bound_twice_a_def twice_a_eq listening_a_eq onListening_pending listeningSocket_def
      joined_socket_def collision_emitter_def default_emitter_def cachedEvents_def getAddress_def)

text \<open>
  \<^verbatim>\<open>on(ev, l)\<close> for an event without an entry, then \<^verbatim>\<open>off(ev, l)\<close>. When the bind callback
  of the new receiver has run in between, \<^verbatim>\<open>off\<close> returns, the registry is as it was
  before \<^verbatim>\<open>on\<close>, the membership is dropped and the receiver is closed. When it has not,
  \<^verbatim>\<open>off\<close> throws from \<^verbatim>\<open>dropMembership\<close>: the entry stays, with no handler and with its
  receiver open.
\<close>

lemma remove_after_listening:
  assumes "ev \<noteq> []" and "map_of (listeners em) ev = None"
  shows "fst (removeListener ev l (snd (onListening (length (sockets em)) (snd (addListener ev l em)))))
           = Return ()
    \<and> listeners (snd (removeListener ev l (snd (onListening (length (sockets em)) (snd (addListener ev l em))))))
           = listeners em
    \<and> \<not> sock_open (sockets (snd (removeListener ev l
            (snd (onListening (length (sockets em)) (snd (addListener ev l em)))))) ! length (sockets em))
    \<and> sock_membership (sockets (snd (removeListener ev l
            (snd (onListening (length (sockets em)) (snd (addListener ev l em)))))) ! length (sockets em)) = []"
proof -
  let ?r = "length (sockets em)"
  let ?ch = "\<lparr>receiver = ?r, handlers = [l]\<rparr>"
  let ?em1 = "em\<lparr>events := cachedEvents ev em,
        listeners := listeners em @ [(ev, ?ch)],
        sockets := sockets em @ [newReceiver ev em]\<rparr>"
  let ?em2 = "?em1\<lparr>events := cachedEvents ev ?em1,
        sockets := (sockets ?em1)[?r := listeningSocket ?em1 (sockets ?em1 ! ?r)]\<rparr>"
  have a: "addListener ev l em = (Return (), ?em1)" using assms by (rule addListener_fresh)
  have b: "onListening ?r ?em1 = (Return (), ?em2)"
    using assms(1) by (intro onListening_pending) (simp_all add: newReceiver_def)
  have nk: "ev \<notin> fst ` set (listeners em)" using assms(2) by (simp add: map_of_eq_None_iff)
  have m2: "map_of (listeners ?em2) ev = Some ?ch" using assms(2) by (simp add: map_add_def)
  have j: "joined ?em2 ?ch"
    by (simp add: joined_def listeningSocket_def newReceiver_def getAddress_def)
  have r: "removeListener ev l ?em2 = (Return (), afterRemove ev ?ch [] ?em2)"
    using removeListener_active[OF assms(1) m2, of l] j by (simp add: removeOutcome_def)
  have del: "AList.delete ev (listeners em @ [(ev, ?ch)]) = listeners em"
    using nk by (simp add: AList.delete_eq filter_id_conv) force
  let ?em3 = "afterRemove ev ?ch [] ?em2"
  have l3: "listeners ?em3 = listeners em" using j by (simp add: afterRemove_def del)
  have s3: "\<not> sock_open (sockets ?em3 ! ?r)" "sock_membership (sockets ?em3 ! ?r) = []"
    using j by (simp_all add: afterRemove_def listeningSocket_def newReceiver_def closedSocket_def getAddress_def)
  show ?thesis
    unfolding a b r fst_conv snd_conv using l3 s3 by blast
qed

lemma remove_before_listening:
  assumes "ev \<noteq> []" and "map_of (listeners em) ev = None"
  shows "fst (removeListener ev l (snd (addListener ev l em))) = Throw SocketError
    \<and> map_of (listeners (snd (removeListener ev l (snd (addListener ev l em))))) ev
        = Some \<lparr>receiver = length (sockets em), handlers = []\<rparr>
    \<and> sockets (snd (removeListener ev l (snd (addListener ev l em)))) = sockets em @ [newReceiver ev em]"
proof -
  let ?r = "length (sockets em)"
  let ?ch = "\<lparr>receiver = ?r, handlers = [l]\<rparr>"
  let ?em1 = "em\<lparr>events := cachedEvents ev em,
        listeners := listeners em @ [(ev, ?ch)],
        sockets := sockets em @ [newReceiver ev em]\<rparr>"
  have a: "addListener ev l em = (Return (), ?em1)" using assms by (rule addListener_fresh)
  have m1: "map_of (listeners ?em1) ev = Some ?ch" using assms(2) by (simp add: map_add_def)
  have j: "\<not> joined ?em1 ?ch" by (simp add: joined_def newReceiver_def)
  have r: "removeListener ev l ?em1 = (Throw SocketError, afterRemove ev ?ch [] ?em1)"
    using removeListener_active[OF assms(1) m1, of l] j by (simp add: removeOutcome_def)
  show ?thesis
    unfolding a r fst_conv snd_conv using j
    by (simp add: afterRemove_def AList.update_conv')
qed

text \<open>
  Two listeners registered with \<^verbatim>\<open>once\<close> for the same event, and the bind callback run.
  The first datagram calls the first listener only: its wrapper removes every wrapper
  of the event, the second one included, and the channel is torn down, so the second
  listener is never called.
\<close>

definition handler_c :: handler where
  "handler_c = Handler ''function (data) { total += data; }'' 3"

definition once_twice :: emitter where
  "once_twice = snd (onListening 1 (snd (once ''a'' handler_c (snd (once ''a'' handler_a collision_emitter)))))"

lemma second_once_listener_is_never_called:
  "map_of (listeners once_twice) ''a''
      = Some \<lparr>receiver = 1, handlers = [OnceListener ''a'' handler_a, OnceListener ''a'' handler_c]\<rparr>
   \<and> fst (onMessage demo_env ''a'' (demo_pack [AString ''a'', AString ''hello'']) once_twice)
      = Return [(handler_a, [AString ''hello''])]
   \<and> hasReceiver (snd (onMessage demo_env ''a'' (demo_pack [AString ''a'', AString ''hello'']) once_twice)) ''a''
      = Return False"
  by code_simp



lemma untagged_after_own_tag_is_dropped:
  "fst (onMessage demo_env ''a'' (demo_pack [AString ''a'', AString ''hello''])
         (snd (onMessage demo_env ''a'' (''@4242:'' @ demo_pack [AString ''a'', AString ''hello'']) bound_a)))
     = Return []"
  by code_simp

section \<open>The claims\<close>

text \<open>
  C10. Some group identifier that is not a valid multicast address but contains one as a
  substring is classified as a multicast address, because the expression is tested
  without anchors, and the whole group string becomes the address of the emitter instead
  of the dotted quad derived from its hash. Shown for the group \<^verbatim>\<open>x239.1.1.1\<close>, for every
  environment and every value of the emitter counter.
\<close>

theorem substring_group_taken_as_address: "\<not> valid_multicast_address ''x239.1.1.1'' \<and> isMulticastAddress ''x239.1.1.1'' \<and>
   (case EventEmitter en counter (no_opts\<lparr>opt_group := Some ''x239.1.1.1''\<rparr>) of
      Return em \<Rightarrow> address em = ''x239.1.1.1'' \<and> getAddress em = group_id em
         \<and> address em \<noteq> join_dot (map toString10 (derived_octets (octet em) (group_id em)))
    | Throw e \<Rightarrow> False)"
  by (simp add: x239_matches x239_not_valid EventEmitter_def no_opts_def or_string_def or_number_def
      truthy_string_def ttlMin_def ttlMax_def octetMin_def octetMax_def portMin_def portMax_def
      derive_address_def getAddress_def derived_octets_def Let_def toString10_239)

text \<open>
  C6, at the input where the code departs from the claim. An emitter constructed with
  \<^verbatim>\<open>ttl: 0\<close> and nothing else is constructed without error and has the default TTL 64:
  \<^verbatim>\<open>opts.ttl || ttl\<close> replaces the falsy 0 before the range check sees it. The other two
  parts of the claim hold: \<open>ttl_256_rejected\<close>, \<open>foreignOnly_without_loopback_rejected\<close>.
\<close>

theorem ttl_zero_is_accepted:
  "(case EventEmitter en counter (no_opts\<lparr>opt_ttl := Some 0\<rparr>) of
      Return em \<Rightarrow> ttl em = 64
    | Throw e \<Rightarrow> False)"
  by (simp add: EventEmitter_def no_opts_def or_string_def or_number_def Let_def
      truthy_string_def ttlMin_def ttlMax_def octetMin_def octetMax_def portMin_def portMax_def)

text \<open>
  C4, the claim as stated fails. The group \<^verbatim>\<open>qc\<close> is not a multicast address, its MD5
  digest starts \<open>93 00 c9\<close>, and the address derived from it is \<^verbatim>\<open>239.147.0.201\<close>: the
  third octet of the address is 0, and the derived octet 0 has not been replaced by 1.
\<close>

theorem third_octet_can_be_zero:
  "\<not> isMulticastAddress ''qc'' \<and> md5 ''qc'' ! 1 = 0 \<and> derived_octets 239 ''qc'' = [239, 147, 0, 201] \<and>
   (case EventEmitter demo_env 0 (no_opts\<lparr>opt_group := Some ''qc''\<rparr>) of
      Return em \<Rightarrow> address em = ''239.147.0.201''
    | Throw e \<Rightarrow> False)"
  by (simp add: qc_not_multicast md5_qc derived_octets_def derive_qc EventEmitter_def no_opts_def or_string_def or_number_def
      truthy_string_def ttlMin_def ttlMax_def octetMin_def octetMax_def portMin_def portMax_def)

text \<open>
  C4, amended. For every group identifier in which the multicast pattern does not occur
  and every configured first octet, two emitters constructed independently (any
  environment, any counter, any other options) with that group and octet have the same
  address. The address is the dotted form of four numbers: the configured octet, then
  bytes 0, 1 and 2 of the 16-byte MD5 digest of the group, where only byte 2, the last
  octet of the address, is replaced by 1 when it is 0 or 255. So the fourth octet is
  never 0 or 255; the second and third are digest bytes as they are, each in
  \<open>[0, 255]\<close>.
\<close>

theorem derived_address_is_deterministic:
  assumes "EventEmitter en1 counter1 opts1 = Return em1"
    and "EventEmitter en2 counter2 opts2 = Return em2"
    and "group_id em1 = group_id em2" and "octet em1 = octet em2"
    and "\<not> isMulticastAddress (group_id em1)"
  shows "address em1 = address em2
    \<and> address em1 = join_dot (map toString10 (derived_octets (octet em1) (group_id em1)))
    \<and> length (md5 (group_id em1)) = 16
    \<and> derived_octets (octet em1) (group_id em1) =
        [octet em1, md5 (group_id em1) ! 0, md5 (group_id em1) ! 1,
         if md5 (group_id em1) ! 2 = 0 \<or> md5 (group_id em1) ! 2 = 255 then 1 else md5 (group_id em1) ! 2]
    \<and> derived_octets (octet em1) (group_id em1) ! 3 \<noteq> 0
    \<and> derived_octets (octet em1) (group_id em1) ! 3 \<noteq> 255
    \<and> list_all (\<lambda>x. 0 \<le> x \<and> x \<le> 255) (derived_octets (octet em1) (group_id em1))"
proof -
  have a1: "address em1 = derive_address (octet em1) (group_id em1)"
    using assms(1) by (rule constructed_address)
  have a2: "address em2 = derive_address (octet em2) (group_id em2)"
    using assms(2) by (rule constructed_address)
  have oc: "octetMin \<le> octet em1 \<and> octet em1 \<le> octetMax"
    using assms(1) by (auto simp: EventEmitter_def Let_def split: if_splits)
  have b: "0 \<le> md5 (group_id em1) ! i \<and> md5 (group_id em1) ! i \<le> 255" if "i < 16" for i
    using that by (rule md5_byte_range)
  show ?thesis
    using a1 a2 assms(3,4,5) oc b[of 0] b[of 1] b[of 2]
    by (simp add: derive_address_def derived_octets_def md5_length Let_def octetMin_def octetMax_def)
qed

theorem derived_address_is_deterministic_witness:
  "address (default_emitter 0) = address (default_emitter 1)
   \<and> address (default_emitter 0) = ''239.22.144.139''
   \<and> derived_octets 239 ''events'' = [239, 22, 144, 139]"
proof -
  have g: "\<not> isMulticastAddress (group_id (default_emitter 0))"
    by (simp add: default_emitter_def events_not_multicast)
  have e: "md5 ''events'' ! 0 = 22 \<and> md5 ''events'' ! 1 = 144 \<and> md5 ''events'' ! 2 = 139"
    by code_simp
  show ?thesis
    using derived_address_is_deterministic[OF default_emitter_constructed[of demo_env 0]
        default_emitter_constructed[of demo_env 1] _ _ g] e
    by (simp add: default_emitter_def)
qed


text \<open>
  C5. For every application id, group id, base port and non-empty event name: the
  generated port is the base port plus an offset built from two digest bytes, byte 15
  as the low part in \<open>[0, 255]\<close> and byte 14 modulo 128 as the high part in
  \<open>[0, 127]\<close>, so the offset is in \<open>[0, 32767]\<close>; it depends on nothing but these four
  values. \<^verbatim>\<open>getPort\<close> returns an entry of the events table as it is and changes nothing;
  without an entry it stores the generated port and returns it; a second call returns
  the same port from the table and leaves the emitter as it is; and no call on the
  emitter changes an entry once it is there, so \<^verbatim>\<open>getPort\<close> generates at most once per
  event name.
\<close>

theorem port_is_derived_once:
  assumes "ev \<noteq> []"
  shows "(let hash = md5 (app_id em @ ''::'' @ group_id em @ ''::'' @ ev);
              low = hash ! 15; high = hash ! 14 mod 128
          in generatePort em ev = base_port em + (low + 256 * high)
             \<and> 0 \<le> low \<and> low \<le> 255 \<and> 0 \<le> high \<and> high \<le> 127
             \<and> 0 \<le> low + 256 * high \<and> low + 256 * high \<le> 32767)
    \<and> (app_id em' = app_id em \<and> group_id em' = group_id em \<and> base_port em' = base_port em
         \<longrightarrow> generatePort em' ev = generatePort em ev)
    \<and> (\<forall>p. map_of (events em) ev = Some p \<longrightarrow> getPort ev em = (Return p, em))
    \<and> (map_of (events em) ev = None \<longrightarrow>
          getPort ev em = (Return (generatePort em ev), em\<lparr>events := events em @ [(ev, generatePort em ev)]\<rparr>))
    \<and> getPort ev (snd (getPort ev em)) = (fst (getPort ev em), snd (getPort ev em))
    \<and> (\<forall>p. map_of (events em) ev = Some p \<longrightarrow> map_of (events (perform en c em)) ev = Some p)"
proof -
  let ?k = "app_id em @ ''::'' @ group_id em @ ''::'' @ ev"
  have b15: "0 \<le> md5 ?k ! 15 \<and> md5 ?k ! 15 \<le> 255" by (rule md5_byte_range) simp
  have h: "0 \<le> md5 ?k ! 14 mod 128 \<and> md5 ?k ! 14 mod 128 \<le> 127"
    using pos_mod_sign[of 128 "md5 ?k ! 14"] pos_mod_bound[of 128 "md5 ?k ! 14"] by simp
  have 1: "generatePort em ev = base_port em + (md5 ?k ! 15 + 256 * (md5 ?k ! 14 mod 128))"
    by (simp add: generatePort_def md5_length Let_def)
  have 2: "app_id em' = app_id em \<and> group_id em' = group_id em \<and> base_port em' = base_port em
         \<longrightarrow> generatePort em' ev = generatePort em ev"
    by (simp add: generatePort_def)
  have 3: "\<forall>p. map_of (events em) ev = Some p \<longrightarrow> getPort ev em = (Return p, em)"
    using assms by (simp add: getPort_def)
  have 4: "map_of (events em) ev = None \<longrightarrow>
          getPort ev em = (Return (generatePort em ev), em\<lparr>events := events em @ [(ev, generatePort em ev)]\<rparr>)"
    using assms by (simp add: getPort_def Let_def)
  have 5: "getPort ev (snd (getPort ev em)) = (fst (getPort ev em), snd (getPort ev em))"
    using assms by (auto simp: getPort_def map_add_def generatePort_def Let_def split: option.splits)
  have 6: "\<forall>p. map_of (events em) ev = Some p \<longrightarrow> map_of (events (perform en c em)) ev = Some p"
    by (simp add: perform_keeps)
  show ?thesis
    unfolding Let_def using 1 b15 h 2 3 4 5 6 by (intro conjI) simp_all
qed

theorem port_is_derived_once_witness:
  "generatePort (default_emitter 0) ''event-name'' = 1967 + (235 + 256 * 111)
   \<and> getPort ''event-name'' (default_emitter 0) =
       (Return 30618, (default_emitter 0)\<lparr>events := [(''event-name'', 30618)]\<rparr>)
   \<and> getPort ''event-name'' ((default_emitter 0)\<lparr>events := [(''event-name'', 5000)]\<rparr>) =
       (Return 5000, (default_emitter 0)\<lparr>events := [(''event-name'', 5000)]\<rparr>)"
proof -
  have ne: "''event-name'' \<noteq> []" by simp
  have e0: "events (default_emitter 0) = []" by (simp add: default_emitter_def)
  show ?thesis
    using port_is_derived_once[OF ne, of "default_emitter 0" "default_emitter 0" demo_env "GetPort ''event-name''"]
      port_is_derived_once[OF ne, of "(default_emitter 0)\<lparr>events := [(''event-name'', 5000)]\<rparr>" "default_emitter 0" demo_env "GetPort ''event-name''"]
      port_event_name[of 0]
    by (simp add: e0 Let_def)
qed


text \<open>
  C1, at an input where the code departs from the claim. The events \<^verbatim>\<open>a\<close> and \<^verbatim>\<open>b\<close> have
  the port 5000 and \<^verbatim>\<open>a\<close> has an active handler. \<^verbatim>\<open>addListener('b', handler_b)\<close> does
  not fail: \<^verbatim>\<open>fullDefined\<close> looks for a collision only when \<^verbatim>\<open>b\<close> itself has a receiver
  and listeners already, so an event with no entry is never refused
  (\<open>fresh_event_is_never_refused\<close>). A channel for \<^verbatim>\<open>b\<close> is created, and the receivers
  of both events have been asked to bind to port 5000.
\<close>

theorem colliding_event_is_registered:
  "hasListeners listening_a ''a'' = Return True
   \<and> fst (getPort ''a'' listening_a) = Return 5000
   \<and> fst (getPort ''b'' listening_a) = Return 5000
   \<and> hasReceiver listening_a ''b'' = Return False
   \<and> fst (addListener ''b'' handler_b listening_a) = Return ()
   \<and> hasReceiver (snd (addListener ''b'' handler_b listening_a)) ''b'' = Return True
   \<and> map (\<lambda>kc. (fst kc, sock_bound (sockets (snd (addListener ''b'' handler_b listening_a)) ! receiver (snd kc))))
         (listeners (snd (addListener ''b'' handler_b listening_a)))
       = [(''a'', Some (5000, ''239.22.144.139'')), (''b'', Some (5000, ''239.22.144.139''))]"
  by (simp add: listening_a_eq addListener_fresh collision_emitter_def default_emitter_def
      cachedEvents_def newReceiver_def getAddress_def hasListeners_def hasReceiver_def getPort_def)


text \<open>
  C7, at an input where the code departs from the claim. Event \<^verbatim>\<open>a\<close> has two handlers,
  different functions with the same text, and its receiver has joined the group. One
  call of \<^verbatim>\<open>removeListener\<close> with the first of them removes both: the loop splices
  every match and has no \<^verbatim>\<open>break\<close>. No handler is left, so the channel is torn down as
  well. The wrappers of \<^verbatim>\<open>once\<close> all have the same text, so the same loop makes the
  first wrapper that runs remove the others (\<open>second_once_listener_is_never_called\<close>).
\<close>

theorem one_call_removes_two_handlers:
  "handlerCount ''a'' bound_twice_a = 2
   \<and> toString handler_a = toString handler_b \<and> handler_a \<noteq> handler_b
   \<and> fst (removeListener ''a'' handler_a bound_twice_a) = Return ()
   \<and> handlerCount ''a'' (snd (removeListener ''a'' handler_a bound_twice_a)) = 0
   \<and> hasReceiver (snd (removeListener ''a'' handler_a bound_twice_a)) ''a'' = Return False"
proof -
  let ?ch = "\<lparr>receiver = 1, handlers = [handler_a, handler_b]\<rparr>"
  have m: "map_of (listeners bound_twice_a) ''a'' = Some ?ch"
    by (simp add: bound_twice_a_eq)
  have t: "toString handler_a = toString handler_b" "handler_a \<noteq> handler_b"
    by (simp_all add: handler_a_def handler_b_def)
  have j: "joined bound_twice_a ?ch"
    by (simp add: joined_def bound_twice_a_eq joined_socket_def collision_emitter_def
        default_emitter_def getAddress_def)
  have r: "removeListener ''a'' handler_a bound_twice_a = (Return (), afterRemove ''a'' ?ch [] bound_twice_a)"
    using removeListener_active[of "''a''" bound_twice_a, OF _ m, of handler_a] t j
    by (simp add: removeOutcome_def)
  show ?thesis
    using t j by (simp add: r handlerCount_afterRemove handlerCount_def m hasReceiver_def
        afterRemove_def AList.delete_conv')
qed

text \<open>
  C2, at an input where the code departs from the claim. \<^verbatim>\<open>on('a', handler_a)\<close> on an
  emitter without listeners returns and leaves a receiver whose bind callback has not
  run yet. \<^verbatim>\<open>off('a', handler_a)\<close>, called before the event loop runs that callback,
  takes the handler out of the list and then throws from \<^verbatim>\<open>dropMembership\<close>, since the
  receiver has not joined the group; \<^verbatim>\<open>close\<close> and \<^verbatim>\<open>delete\<close> are not reached. The event
  is left with an entry in the registry, no handler, and an open receiver. Had the
  bind callback run in between, \<^verbatim>\<open>off\<close> would have returned with the entry gone and the
  receiver closed (the last three lines; for every emitter, \<open>remove_after_listening\<close>).
\<close>

theorem removal_before_bind_keeps_channel:
  "hasReceiver collision_emitter ''a'' = Return False
   \<and> fst (addListener ''a'' handler_a collision_emitter) = Return ()
   \<and> sock_membership (sockets listening_a ! 1) = []
   \<and> fst (removeListener ''a'' handler_a listening_a) = Throw SocketError
   \<and> hasListeners (snd (removeListener ''a'' handler_a listening_a)) ''a'' = Return False
   \<and> hasReceiver (snd (removeListener ''a'' handler_a listening_a)) ''a'' = Return True
   \<and> map_of (listeners (snd (removeListener ''a'' handler_a listening_a))) ''a''
        = Some \<lparr>receiver = 1, handlers = []\<rparr>
   \<and> sock_open (sockets (snd (removeListener ''a'' handler_a listening_a)) ! 1)
   \<and> fst (removeListener ''a'' handler_a bound_a) = Return ()
   \<and> hasReceiver (snd (removeListener ''a'' handler_a bound_a)) ''a'' = Return False
   \<and> sock_open (sockets (snd (removeListener ''a'' handler_a bound_a)) ! 1) = False"
proof -
  have ne: "''a'' \<noteq> []" by simp
  have fresh: "map_of (listeners collision_emitter) ''a'' = None"
    and n: "length (sockets collision_emitter) = 1"
    and none: "listeners collision_emitter = []"
    by (simp_all add: collision_emitter_def default_emitter_def)
  have la: "snd (addListener ''a'' handler_a collision_emitter) = listening_a"
    by (simp add: listening_a_def)
  have ba: "snd (onListening 1 listening_a) = bound_a"
    by (simp add: bound_a_def)
  have 1: "hasReceiver collision_emitter ''a'' = Return False"
    using fresh by (simp add: hasReceiver_def)
  have 2: "fst (addListener ''a'' handler_a collision_emitter) = Return ()"
    using ne fresh by (rule fresh_event_is_never_refused)
  have 3: "sock_membership (sockets listening_a ! 1) = []"
    by (simp add: listening_a_eq n nth_append)
  note before = remove_before_listening[OF ne fresh, of handler_a, unfolded la n]
  note after = remove_after_listening[OF ne fresh, of handler_a, unfolded la n ba none]
  have 4: "fst (removeListener ''a'' handler_a listening_a) = Throw SocketError"
    using before by simp
  have 5: "hasListeners (snd (removeListener ''a'' handler_a listening_a)) ''a'' = Return False"
    "hasReceiver (snd (removeListener ''a'' handler_a listening_a)) ''a'' = Return True"
    "map_of (listeners (snd (removeListener ''a'' handler_a listening_a))) ''a''
        = Some \<lparr>receiver = 1, handlers = []\<rparr>"
    using before by (simp_all add: hasListeners_def hasReceiver_def)
  have 6: "sock_open (sockets (snd (removeListener ''a'' handler_a listening_a)) ! 1)"
    using before by (simp add: n nth_append newReceiver_def)
  have 7: "fst (removeListener ''a'' handler_a bound_a) = Return ()"
    "hasReceiver (snd (removeListener ''a'' handler_a bound_a)) ''a'' = Return False"
    "sock_open (sockets (snd (removeListener ''a'' handler_a bound_a)) ! 1) = False"
    using after by (simp_all add: hasReceiver_def)
  show ?thesis using 1 2 3 4 5 6 7 by simp
qed




text \<open>
  C8, the claim as stated fails. The bound channel of \<^verbatim>\<open>a\<close> receives a datagram that
  decodes to the event name \<^verbatim>\<open>b\<close>. The error is not kept within the dispatch of that
  datagram: the \<^verbatim>\<open>'message'\<close> callback throws it, and nothing between \<^verbatim>\<open>handleEvent\<close> and
  the event loop catches it. A datagram with the right name makes the callback return.
\<close>

theorem mismatch_is_thrown_to_the_event_loop:
  "fst (onMessage demo_env ''a'' (demo_pack [AString ''b'', AString ''hello'']) bound_a)
     = Throw (UnexpectedEvent (Some (AString ''b'')) ''a'')
   \<and> fst (onMessage demo_env ''a'' (demo_pack [AString ''a'', AString ''hello'']) bound_a)
     = Return [(handler_a, [AString ''hello''])]"
  by code_simp

text \<open>
  C8, amended. A bound channel takes a datagram that passes the origin filter, decrypts
  and decodes, and whose first decoded value is not the event name of the channel.
  Then the \<^verbatim>\<open>'message'\<close> callback throws the mismatch error to the event loop, and it
  does so before any handler is called. The emitter is left with the flag
  \<^verbatim>\<open>processMessage\<close> of the channel set and is otherwise as before: the same table of
  ports, the same registry with the same handlers, the same sockets apart from that
  flag, and exactly as before when the flag was set already. If the process goes on,
  a later datagram for the channel that passes the filter and decodes to the event name
  of the channel is handled as if the mismatch had not happened.
\<close>

theorem mismatch_leaves_channel_intact:
  assumes ch: "map_of (listeners em) ev = Some ch" and b: "bound em ch pm"
    and fo: "filterOrigin en pm msg = (True, body)"
    and de: "decrypt en em body = Return decrypted"
    and un: "unpack en decrypted = Return data"
    and mm: "data = [] \<or> hd data \<noteq> AString ev"
  shows "onMessage en ev msg em =
      (Throw (UnexpectedEvent (case data of [] \<Rightarrow> None | x # _ \<Rightarrow> Some x) ev),
       setProcessMessage (receiver ch) True em)
    \<and> (pm \<longrightarrow> setProcessMessage (receiver ch) True em = em)
    \<and> events (setProcessMessage (receiver ch) True em) = events em
    \<and> listeners (setProcessMessage (receiver ch) True em) = listeners em
    \<and> sockets (setProcessMessage (receiver ch) True em) =
        (sockets em)[receiver ch := (sockets em ! receiver ch)\<lparr>sock_processMessage := Some True\<rparr>]
    \<and> (\<forall>msg2 body2 decrypted2 args.
          list_all plain (handlers ch)
          \<and> filterOrigin en True msg2 = (True, body2) \<and> decrypt en em body2 = Return decrypted2
          \<and> unpack en decrypted2 = Return (AString ev # args) \<longrightarrow>
          onMessage en ev msg2 (setProcessMessage (receiver ch) True em) =
            (Return (map (\<lambda>h. (h, args)) (handlers ch)), setProcessMessage (receiver ch) True em))"
proof -
  let ?em' = "setProcessMessage (receiver ch) True em"
  have 1: "onMessage en ev msg em =
      (Throw (UnexpectedEvent (case data of [] \<Rightarrow> None | x # _ \<Rightarrow> Some x) ev), ?em')"
    using onMessage_processed[OF ch b fo] de handleEvent_mismatch[OF un mm, of ?em'] by simp
  have 2: "pm \<longrightarrow> ?em' = em" using setProcessMessage_same[OF b] by auto
  have 3: "events ?em' = events em" "listeners ?em' = listeners em"
    "sockets ?em' = (sockets em)[receiver ch := (sockets em ! receiver ch)\<lparr>sock_processMessage := Some True\<rparr>]"
    by (simp_all add: setProcessMessage_def)
  have m': "map_of (listeners ?em') ev = Some ch" using ch by simp
  have b': "bound ?em' ch True" using b by (rule bound_setProcessMessage)
  have 6: "onMessage en ev msg2 ?em' = (Return (map (\<lambda>h. (h, args)) (handlers ch)), ?em')"
    if "list_all plain (handlers ch)" "filterOrigin en True msg2 = (True, body2)"
      "decrypt en em body2 = Return decrypted2"
      "unpack en decrypted2 = Return (AString ev # args)" for msg2 body2 decrypted2 args
  proof -
    have d: "decrypt en ?em' body2 = Return decrypted2" using that(3) by simp
    have m'': "map_of (listeners (setProcessMessage (receiver ch) True ?em')) ev = Some ch"
      using ch by simp
    show ?thesis
      using onMessage_processed[OF m' b' that(2)] d handleEvent_match[OF m'' that(1,4)]
      by simp
  qed
  show ?thesis using 1 2 3 6 by blast
qed

theorem mismatch_leaves_channel_intact_witness:
  "onMessage demo_env ''a'' (demo_pack [AString ''b'', AString ''hello'']) bound_a
     = (Throw (UnexpectedEvent (Some (AString ''b'')) ''a''), bound_a)
   \<and> onMessage demo_env ''a'' (demo_pack [AString ''a'', AString ''again'']) bound_a
     = (Return [(handler_a, [AString ''again''])], bound_a)"
proof -
  let ?ch = "\<lparr>receiver = 1, handlers = [handler_a]\<rparr>"
  let ?bad = "demo_pack [AString ''b'', AString ''hello'']"
  let ?good = "demo_pack [AString ''a'', AString ''again'']"
  have m: "map_of (listeners bound_a) ''a'' = Some ?ch" by (simp add: bound_a_eq)
  have b: "bound bound_a ?ch True"
    by (simp add: bound_def bound_a_eq joined_socket_def collision_emitter_def default_emitter_def)
  have fb: "filterOrigin demo_env True ?bad = (True, ?bad)"
    and fg: "filterOrigin demo_env True ?good = (True, ?good)"
    by (simp_all add: filterOrigin_def demo_pack_def)
  have d: "decrypt demo_env bound_a x = Return x" for x
    by (simp add: decrypt_def bound_a_eq collision_emitter_def default_emitter_def truthy_string_def)
  have ub: "unpack demo_env ?bad = Return [AString ''b'', AString ''hello'']"
    and ug: "unpack demo_env ?good = Return (AString ''a'' # [AString ''again''])"
    by (simp_all add: demo_env_def demo_unpack_def demo_pack_def)
  have mm: "[AString ''b'', AString ''hello''] = [] \<or> hd [AString ''b'', AString ''hello''] \<noteq> AString ''a''"
    by simp
  have f: "setProcessMessage (receiver ?ch) True bound_a = bound_a"
    using b by (rule setProcessMessage_same)
  note T = mismatch_leaves_channel_intact[OF m b fb d ub mm]
  have 1: "onMessage demo_env ''a'' ?bad bound_a
     = (Throw (UnexpectedEvent (Some (AString ''b'')) ''a''), bound_a)"
    using T[THEN conjunct1] f by simp
  have pre: "list_all plain (handlers ?ch)
          \<and> filterOrigin demo_env True ?good = (True, ?good) \<and> decrypt demo_env bound_a ?good = Return ?good
          \<and> unpack demo_env ?good = Return (AString ''a'' # [AString ''again''])"
    using fg d ug by (simp add: handler_a_def)
  have 2: "onMessage demo_env ''a'' ?good bound_a
     = (Return [(handler_a, [AString ''again''])], bound_a)"
    using T[THEN conjunct2, THEN conjunct2, THEN conjunct2, THEN conjunct2, THEN conjunct2,
        THEN spec, THEN spec, THEN spec, THEN spec, THEN mp, OF pre] f
    by simp
  from 1 2 show ?thesis by simp
qed



end
